theory Spec2Isabelle
  imports Main "HOL-Library.Word"
begin

section \<open>Values, errors and outcomes\<close>

text \<open>
  The message translation of the Service Bus client (the second Go file held in
  \<^verbatim>\<open>errors.go\<close>, whose line numbers are used below) is embedded function by function.
  A Go function of result type
  \<^verbatim>\<open>(T, error)\<close> that can also panic is a value of \<open>'a outcome\<close>: \<open>Panic\<close> is a
  run-time panic (nil dereference, index out of range, failed type assertion), and
  \<open>Return\<close> carries what the function returns.
\<close>

type_synonym byte = "8 word"
type_synonym uint32 = "32 word"

text \<open>
  The dynamic values an \<^verbatim>\<open>interface{}\<close> holds in this code: nil, booleans, integers,
  strings, \<^verbatim>\<open>time.Time\<close> and \<^verbatim>\<open>time.Duration\<close> (as a number of nanoseconds),
  a UUID (16 bytes) and a byte slice. A byte slice stands for the kinds Go cannot compare
  with \<^verbatim>\<open>==\<close>.
\<close>

datatype gvalue =
    VNil
  | VBool bool
  | VInt int
  | VString string
  | VTime int
  | VUUID "byte list"
  | VBytes "byte list"

datatype error =
    InvalidDeliveryTag "byte list"   \<comment> \<open>"the message contained an invalid delivery tag: %v"\<close>
  | NotAStruct                       \<comment> \<open>"must provide a struct"\<close>
  | UnrecognizedTagOption string     \<comment> \<open>"key %q is not understood"\<close>
  | DecodeError string               \<comment> \<open>an error of \<^verbatim>\<open>mapstructure.Decode\<close>\<close>

datatype panic =
    NilDereference
  | IndexOutOfRange
  | InterfaceConversion
  | UncomparableType
  | ReflectElemOnNonPointer

datatype 'a outcome = Panic panic | Return 'a

text \<open>
  A Go map is an association list whose keys are distinct; the order of the list is the
  order in which \<^verbatim>\<open>range\<close> visits the entries. A nil map is \<open>None\<close>.
\<close>

type_synonym gomap = "(string \<times> gvalue) list"

definition wf_gomap :: "(string \<times> 'v) list \<Rightarrow> bool" where
  "wf_gomap ps = distinct (map fst ps)"

text \<open>\<^verbatim>\<open>m[k] = v\<close> on a map.\<close>

fun map_store :: "string \<Rightarrow> 'v \<Rightarrow> (string \<times> 'v) list \<Rightarrow> (string \<times> 'v) list" where
  "map_store k v [] = [(k, v)]"
| "map_store k v (p # ps) = (if fst p = k then (k, v) # ps else p # map_store k v ps)"

section \<open>The wire message\<close>

text \<open>
  The parts of \<^verbatim>\<open>amqp.Message\<close> (package \<^verbatim>\<open>pack.ag/amqp\<close>) that the translation
  reads or writes. A pointer to a block is an \<open>option\<close>. A nil delivery tag is the
  empty list: the code only takes its length.
\<close>

record MessageProperties =
  p_MessageID :: gvalue
  p_CorrelationID :: gvalue
  p_ContentType :: string
  p_Subject :: string
  p_GroupID :: string
  p_GroupSequence :: uint32
  p_To :: string
  p_ReplyTo :: string
  p_ReplyToGroupID :: string

record MessageHeader =
  h_TTL :: int
  h_DeliveryCount :: uint32

record amqp_Message =
  w_Data :: "byte list list"
  w_Properties :: "MessageProperties option"
  w_Header :: "MessageHeader option"
  w_ApplicationProperties :: "gomap option"
  w_Annotations :: "gomap option"
  w_DeliveryAnnotations :: "gomap option"
  w_DeliveryTag :: "byte list"

section \<open>Lock-token codec\<close>

text \<open>The closure \<^verbatim>\<open>swapIndex\<close> of \<^verbatim>\<open>lockTokenFromMessageTag\<close>, on a 16-byte array.\<close>

definition swapIndex :: "nat \<Rightarrow> nat \<Rightarrow> byte list \<Rightarrow> byte list" where
  "swapIndex indexOne indexTwo array =
     (let v1 = array ! indexOne in
      (array[indexOne := array ! indexTwo])[indexTwo := v1])"

text \<open>The four swaps applied to \<^verbatim>\<open>lockTokenBytes\<close>, in the order of the source.\<close>

definition swapGuidBytes :: "byte list \<Rightarrow> byte list" where
  "swapGuidBytes lockTokenBytes =
     swapIndex 6 7 (swapIndex 4 5 (swapIndex 1 2 (swapIndex 0 3 lockTokenBytes)))"

text \<open>
  \<^verbatim>\<open>copy(lockTokenBytes[:], msg.DeliveryTag[:16])\<close> fills the array with the first 16
  bytes of the tag, which has 16 bytes at that point.
\<close>

definition lockTokenFromMessageTag :: "amqp_Message \<Rightarrow> error + byte list" where
  "lockTokenFromMessageTag msg =
     (if length (w_DeliveryTag msg) \<noteq> 16 then Inl (InvalidDeliveryTag (w_DeliveryTag msg))
      else Inr (swapGuidBytes (take 16 (w_DeliveryTag msg))))"

section \<open>Tag parser\<close>

text \<open>
  \<^verbatim>\<open>strings.Split(str, ",")\<close>: the tokens between the commas, from left to right;
  \<open>cur\<close> is the token being read. The result is never empty.
\<close>

fun Split_from :: "string \<Rightarrow> string \<Rightarrow> string list" where
  "Split_from cur [] = [cur]"
| "Split_from cur (c # cs) =
     (if c = CHR '','' then cur # Split_from [] cs else Split_from (cur @ [c]) cs)"

definition Split_comma :: "string \<Rightarrow> string list" where
  "Split_comma s = Split_from [] s"

text \<open>Joining tokens with commas, to state what the split returns.\<close>

fun join_comma :: "string list \<Rightarrow> string" where
  "join_comma [] = []"
| "join_comma [t] = t"
| "join_comma (t # u # ts) = t @ CHR '','' # join_comma (u # ts)"

text \<open>
  \<^verbatim>\<open>strings.TrimSpace\<close> removes the leading and trailing runes that
  \<^verbatim>\<open>unicode.IsSpace\<close> accepts. A Go string is a sequence of bytes in UTF-8, so the
  white-space runes are listed by their encodings: tab, line feed, vertical tab, form
  feed, carriage return, space, U+0085, U+00A0, U+1680, U+2000 to U+200A, U+2028, U+2029,
  U+202F, U+205F and U+3000.
\<close>

definition unicode_spaces :: "string list" where
  "unicode_spaces =
     [[CHR 0x09], [CHR 0x0A], [CHR 0x0B], [CHR 0x0C], [CHR 0x0D], [CHR 0x20],
      [CHR 0xC2, CHR 0x85], [CHR 0xC2, CHR 0xA0],
      [CHR 0xE1, CHR 0x9A, CHR 0x80],
      [CHR 0xE2, CHR 0x80, CHR 0x80], [CHR 0xE2, CHR 0x80, CHR 0x81],
      [CHR 0xE2, CHR 0x80, CHR 0x82], [CHR 0xE2, CHR 0x80, CHR 0x83],
      [CHR 0xE2, CHR 0x80, CHR 0x84], [CHR 0xE2, CHR 0x80, CHR 0x85],
      [CHR 0xE2, CHR 0x80, CHR 0x86], [CHR 0xE2, CHR 0x80, CHR 0x87],
      [CHR 0xE2, CHR 0x80, CHR 0x88], [CHR 0xE2, CHR 0x80, CHR 0x89],
      [CHR 0xE2, CHR 0x80, CHR 0x8A],
      [CHR 0xE2, CHR 0x80, CHR 0xA8], [CHR 0xE2, CHR 0x80, CHR 0xA9],
      [CHR 0xE2, CHR 0x80, CHR 0xAF], [CHR 0xE2, CHR 0x81, CHR 0x9F],
      [CHR 0xE3, CHR 0x80, CHR 0x80]]"

text \<open>The first sequence of \<open>ws\<close> that \<open>s\<close> starts with, if there is one.\<close>

definition leading :: "string list \<Rightarrow> string \<Rightarrow> string option" where
  "leading ws s = find (\<lambda>w. w \<noteq> [] \<and> take (length w) s = w) ws"

function TrimLeftSeqs :: "string list \<Rightarrow> string \<Rightarrow> string" where
  "TrimLeftSeqs ws s =
     (case leading ws s of
        None \<Rightarrow> s
      | Some w \<Rightarrow> TrimLeftSeqs ws (drop (length w) s))"
  by pat_completeness auto
termination
proof (relation "measure (\<lambda>(ws, s). length s)")
  show "wf (measure (\<lambda>(ws, s). length s))" by simp
next
  fix ws :: "string list" and s w :: string
  assume "leading ws s = Some w"
  then have w: "w \<noteq> [] \<and> take (length w) s = w"
    unfolding leading_def by (auto simp: find_Some_iff)
  then have "s \<noteq> []" by auto
  with w show "((ws, drop (length w) s), (ws, s)) \<in> measure (\<lambda>(ws, s). length s)"
    by (cases w) auto
qed

declare TrimLeftSeqs.simps [simp del]

text \<open>The trailing runes are removed on the reversed string, with the encodings reversed.\<close>

definition TrimSpace :: "string \<Rightarrow> string" where
  "TrimSpace s =
     rev (TrimLeftSeqs (map rev unicode_spaces) (rev (TrimLeftSeqs unicode_spaces s)))"

record mapStructureTag =
  Name :: string
  PersistEmpty :: bool

text \<open>
  The loop of \<^verbatim>\<open>parseMapStructureTag\<close> over \<^verbatim>\<open>split[1:]\<close>; \<open>persist\<close> is
  \<^verbatim>\<open>mapTag.PersistEmpty\<close> so far.
\<close>

fun tagOptions :: "string list \<Rightarrow> bool \<Rightarrow> error + bool" where
  "tagOptions [] persist = Inr persist"
| "tagOptions (tagKey # rest) persist =
     (if tagKey = ''persistempty'' then tagOptions rest True
      else Inl (UnrecognizedTagOption tagKey))"

text \<open>
  The argument is the result of \<^verbatim>\<open>tag.Lookup("mapstructure")\<close> on the field's struct
  tag: \<open>None\<close> when the key is absent (\<^verbatim>\<open>ok\<close> false), the value otherwise. The result
  \<open>Inr None\<close> is the pair \<^verbatim>\<open>(nil, nil)\<close>.
\<close>

definition parseMapStructureTag :: "string option \<Rightarrow> error + mapStructureTag option" where
  "parseMapStructureTag tag =
     (case tag of
        None \<Rightarrow> Inr None
      | Some str \<Rightarrow>
          (let split = Split_comma str;
               name = TrimSpace (hd split)
           in if length split > 1 then
                (case tagOptions (tl split) False of
                   Inl err \<Rightarrow> Inl err
                 | Inr persist \<Rightarrow> Inr (Some \<lparr>Name = name, PersistEmpty = persist\<rparr>))
              else Inr (Some \<lparr>Name = name, PersistEmpty = False\<rparr>)))"

section \<open>Structure projector\<close>

text \<open>
  What \<^verbatim>\<open>reflect\<close> shows of one struct field. \<open>f_CanSet\<close> is
  \<^verbatim>\<open>f.IsValid() && f.CanSet()\<close>: the struct is reached through a pointer, so it is
  addressable, and the field can be set exactly when it is exported. \<open>f_Tag\<close> is the
  result of \<^verbatim>\<open>tf.Tag.Lookup("mapstructure")\<close>. A field of kind \<^verbatim>\<open>reflect.Ptr\<close> is a
  \<open>PtrField\<close>, nil or pointing to a value; a field of any other kind is a
  \<open>PlainField\<close> and holds its value.
\<close>

datatype fieldvalue = PtrField "gvalue option" | PlainField gvalue

record StructField =
  f_CanSet :: bool
  f_Tag :: "string option"
  f_Value :: fieldvalue

text \<open>
  The argument \<^verbatim>\<open>structPointer interface{}\<close>: a nil interface, a value that is not
  a pointer, or a pointer (nil, or to a struct or to something else).
\<close>

datatype pointee = Struct "StructField list" | NonStruct gvalue

datatype reflect_arg = NilInterface | ByValue pointee | Pointer "pointee option"

text \<open>\<^verbatim>\<open>reflect.Zero(f.Type()).Interface()\<close> for the type of a plain field's value.\<close>

fun Zero :: "gvalue \<Rightarrow> gvalue" where
  "Zero VNil = VNil"
| "Zero (VBool _) = VBool False"
| "Zero (VInt _) = VInt 0"
| "Zero (VString _) = VString []"
| "Zero (VTime _) = VTime 0"
| "Zero (VUUID _) = VUUID (replicate 16 0)"
| "Zero (VBytes _) = VBytes []"

text \<open>
  Go's \<^verbatim>\<open>!=\<close> on two interfaces of the same dynamic type panics when the type is
  not comparable (a slice, a map, a function).
\<close>

fun comparable :: "gvalue \<Rightarrow> bool" where
  "comparable (VBytes _) = False"
| "comparable _ = True"

text \<open>The \<^verbatim>\<open>switch f.Kind()\<close> of \<^verbatim>\<open>encodeStructureToMap\<close>, for a field whose tag is present.\<close>

definition encodeField :: "mapStructureTag \<Rightarrow> fieldvalue \<Rightarrow> gomap \<Rightarrow> gomap outcome" where
  "encodeField tag f encoded =
     (case f of
        PtrField p \<Rightarrow>
          Return (if p \<noteq> None \<or> PersistEmpty tag then
                    (case p of
                       None \<Rightarrow> map_store (Name tag) VNil encoded
                     | Some v \<Rightarrow> map_store (Name tag) v encoded)
                  else encoded)
      | PlainField v \<Rightarrow>
          if \<not> comparable v then Panic UncomparableType
          else Return (if v \<noteq> Zero v \<or> PersistEmpty tag then map_store (Name tag) v encoded
                       else encoded))"

text \<open>The loop over the fields; \<open>encoded\<close> is the map built so far.\<close>

fun encodeFields :: "StructField list \<Rightarrow> gomap \<Rightarrow> (error + gomap) outcome" where
  "encodeFields [] encoded = Return (Inr encoded)"
| "encodeFields (f # fs) encoded =
     (if f_CanSet f then
        (case parseMapStructureTag (f_Tag f) of
           Inl err \<Rightarrow> Return (Inl err)
         | Inr None \<Rightarrow> encodeFields fs encoded
         | Inr (Some tag) \<Rightarrow>
             (case encodeField tag (f_Value f) encoded of
                Panic p \<Rightarrow> Panic p
              | Return encoded' \<Rightarrow> encodeFields fs encoded'))
      else encodeFields fs encoded)"

text \<open>
  \<^verbatim>\<open>reflect.Value.Elem\<close> panics on a value that is neither a pointer nor an interface
  (the zero \<^verbatim>\<open>Value\<close> of a nil interface included); on a nil pointer it returns the zero
  \<^verbatim>\<open>Value\<close>, whose kind is not \<^verbatim>\<open>reflect.Struct\<close>.
\<close>

definition encodeStructureToMap :: "reflect_arg \<Rightarrow> (error + gomap) outcome" where
  "encodeStructureToMap structPointer =
     (case structPointer of
        NilInterface \<Rightarrow> Panic ReflectElemOnNonPointer
      | ByValue _ \<Rightarrow> Panic ReflectElemOnNonPointer
      | Pointer None \<Rightarrow> Return (Inl NotAStruct)
      | Pointer (Some (NonStruct _)) \<Rightarrow> Return (Inl NotAStruct)
      | Pointer (Some (Struct fs)) \<Rightarrow> encodeFields fs [])"

text \<open>
  The entry one field contributes, as the specification words it, for a field that can be
  set: none without the annotation; for a pointer field the key with null when the
  pointer is nil and PersistEmpty holds, the key with the pointed-to value when it is not
  nil; for a plain field the key with the value when the value is not the zero value of
  its type or PersistEmpty holds. The key is the trimmed first token of the annotation
  and PersistEmpty holds when a later token is \<^verbatim>\<open>persistempty\<close>.
\<close>

definition field_entry :: "StructField \<Rightarrow> (string \<times> gvalue) option" where
  "field_entry f =
     (if \<not> f_CanSet f then None
      else case f_Tag f of
        None \<Rightarrow> None
      | Some str \<Rightarrow>
          (let key = TrimSpace (hd (Split_comma str));
               persist = (''persistempty'' \<in> set (tl (Split_comma str)))
           in case f_Value f of
                PtrField None \<Rightarrow> if persist then Some (key, VNil) else None
              | PtrField (Some v) \<Rightarrow> Some (key, v)
              | PlainField v \<Rightarrow> if v \<noteq> Zero v \<or> persist then Some (key, v) else None))"

text \<open>
  A field the projector accepts: if it can be set, every option of its annotation is
  \<^verbatim>\<open>persistempty\<close> and a plain value is of a comparable type.
\<close>

definition field_ok :: "StructField \<Rightarrow> bool" where
  "field_ok f =
     (f_CanSet f \<longrightarrow>
        (case f_Tag f of
           None \<Rightarrow> True
         | Some str \<Rightarrow>
             (\<forall>t \<in> set (tl (Split_comma str)). t = ''persistempty'') \<and>
             (case f_Value f of PtrField _ \<Rightarrow> True | PlainField v \<Rightarrow> comparable v)))"

section \<open>Messages\<close>

record SystemProperties =
  LockedUntil :: "int option"
  SequenceNumber :: "int option"
  PartitionID :: "int option"
  PartitionKey :: "string option"
  EnqueuedTime :: "int option"
  DeadLetterSource :: "string option"
  ScheduledEnqueueTime :: "int option"
  EnqueuedSequenceNumber :: "int option"
  ViaPartitionKey :: "string option"

text \<open>
  \<^verbatim>\<open>Message\<close>. A nil slice is the empty list; a pointer field is an \<open>option\<close>. The
  pointers that \<^verbatim>\<open>newMessage\<close> takes into the wire message (\<^verbatim>\<open>GroupID\<close>,
  \<^verbatim>\<open>GroupSequence\<close>, \<^verbatim>\<open>TTL\<close>) are the values they point to.
\<close>

record Message =
  ContentType :: string
  CorrelationID :: string
  Data :: "byte list"
  DeliveryCount :: uint32
  GroupID :: "string option"
  GroupSequence :: "uint32 option"
  ID :: string
  Label :: string
  ReplyTo :: string
  ReplyToGroupID :: string
  To :: string
  TTL :: "int option"
  LockToken :: "byte list option"
  SystemProperties :: "SystemProperties option"
  UserProperties :: "gomap option"
  message :: "amqp_Message option"

text \<open>The struct \<^verbatim>\<open>SystemProperties\<close> as \<^verbatim>\<open>reflect\<close> shows it: nine exported pointer fields.\<close>

definition tagged_ptr :: "string \<Rightarrow> gvalue option \<Rightarrow> StructField" where
  "tagged_ptr tag v = \<lparr>f_CanSet = True, f_Tag = Some tag, f_Value = PtrField v\<rparr>"

definition SystemProperties_fields :: "SystemProperties \<Rightarrow> StructField list" where
  "SystemProperties_fields sp =
     [tagged_ptr ''x-opt-locked-until'' (map_option VTime (LockedUntil sp)),
      tagged_ptr ''x-opt-sequence-number'' (map_option VInt (SequenceNumber sp)),
      tagged_ptr ''x-opt-partition-id'' (map_option VInt (PartitionID sp)),
      tagged_ptr ''x-opt-partition-key'' (map_option VString (PartitionKey sp)),
      tagged_ptr ''x-opt-enqueued-time'' (map_option VTime (EnqueuedTime sp)),
      tagged_ptr ''x-opt-deadletter-source'' (map_option VString (DeadLetterSource sp)),
      tagged_ptr ''x-opt-scheduled-enqueue-time'' (map_option VTime (ScheduledEnqueueTime sp)),
      tagged_ptr ''x-opt-enqueue-sequence-number'' (map_option VInt (EnqueuedSequenceNumber sp)),
      tagged_ptr ''x-opt-via-partition-key'' (map_option VString (ViaPartitionKey sp))]"

definition lockTokenName :: string where
  "lockTokenName = ''x-opt-lock-token''"

text \<open>The zero \<^verbatim>\<open>Message\<close>, and \<^verbatim>\<open>NewMessage\<close> and \<^verbatim>\<open>NewMessageFromString\<close>.\<close>

definition zero_Message :: Message where
  "zero_Message =
     \<lparr>ContentType = [], CorrelationID = [], Data = [], DeliveryCount = 0, GroupID = None,
      GroupSequence = None, ID = [], Label = [], ReplyTo = [], ReplyToGroupID = [], To = [],
      TTL = None, LockToken = None, SystemProperties = None, UserProperties = None,
      message = None\<rparr>"

definition NewMessage :: "byte list \<Rightarrow> Message" where
  "NewMessage data = zero_Message\<lparr>Data := data\<rparr>"

definition NewMessageFromString :: "string \<Rightarrow> Message" where
  "NewMessageFromString s = NewMessage (map (\<lambda>c. of_nat (of_char c)) s)"

text \<open>A loop \<^verbatim>\<open>for key, value := range src { dst[key] = value }\<close>.\<close>

definition copy_into :: "(string \<times> 'v) list \<Rightarrow> (string \<times> 'v) list \<Rightarrow> (string \<times> 'v) list" where
  "copy_into src dst = fold (\<lambda>(key, val) acc. map_store key val acc) src dst"

text \<open>\<^verbatim>\<open>len\<close> of a map that may be nil.\<close>

definition len_map :: "(string \<times> 'v) list option \<Rightarrow> nat" where
  "len_map m = (case m of None \<Rightarrow> 0 | Some ps \<Rightarrow> length ps)"

definition entries :: "(string \<times> 'v) list option \<Rightarrow> (string \<times> 'v) list" where
  "entries m = (case m of None \<Rightarrow> [] | Some ps \<Rightarrow> ps)"

section \<open>Outbound translation\<close>

text \<open>
  \<^verbatim>\<open>amqp.NewMessage(data)\<close> of the transport: a wire message with the one data section
  and every block nil.
\<close>

definition amqp_NewMessage :: "byte list \<Rightarrow> amqp_Message" where
  "amqp_NewMessage data =
     \<lparr>w_Data = [data], w_Properties = None, w_Header = None,
      w_ApplicationProperties = None, w_Annotations = None, w_DeliveryAnnotations = None,
      w_DeliveryTag = []\<rparr>"

definition annotationsFromMap :: "gomap \<Rightarrow> gomap" where
  "annotationsFromMap m = copy_into m []"

text \<open>The properties block that \<^verbatim>\<open>toMsg\<close> builds (lines 288 to 305 of the source).\<close>

definition toMsg_properties :: "Message \<Rightarrow> MessageProperties" where
  "toMsg_properties m =
     (let p0 = \<lparr>p_MessageID = VString (ID m), p_CorrelationID = VNil, p_ContentType = [],
                p_Subject = [], p_GroupID = [], p_GroupSequence = 0, p_To = [],
                p_ReplyTo = [], p_ReplyToGroupID = []\<rparr>;
          p1 = (case GroupID m of None \<Rightarrow> p0 | Some g \<Rightarrow> p0\<lparr>p_GroupID := g\<rparr>);
          p2 = (case GroupSequence m of None \<Rightarrow> p1 | Some n \<Rightarrow> p1\<lparr>p_GroupSequence := n\<rparr>)
      in p2\<lparr>p_CorrelationID := VString (CorrelationID m),
            p_ContentType := ContentType m,
            p_Subject := Label m,
            p_To := To m,
            p_ReplyTo := ReplyTo m,
            p_ReplyToGroupID := ReplyToGroupID m\<rparr>)"

text \<open>The lock token and the time-to-live (lines 322 to 334), after the annotations.\<close>

definition toMsg_finish :: "Message \<Rightarrow> amqp_Message \<Rightarrow> amqp_Message" where
  "toMsg_finish m amqpMsg =
     (let a1 = (case LockToken m of
                  None \<Rightarrow> amqpMsg
                | Some token \<Rightarrow>
                    amqpMsg\<lparr>w_DeliveryAnnotations :=
                      Some (map_store lockTokenName (VUUID token)
                             (entries (w_DeliveryAnnotations amqpMsg)))\<rparr>)
      in case TTL m of
           None \<Rightarrow> a1
         | Some ttl \<Rightarrow>
             a1\<lparr>w_Header :=
               Some ((case w_Header a1 of
                        None \<Rightarrow> \<lparr>h_TTL = 0, h_DeliveryCount = 0\<rparr>
                      | Some h \<Rightarrow> h)\<lparr>h_TTL := ttl\<rparr>)\<rparr>)"

definition toMsg :: "Message \<Rightarrow> (error + amqp_Message) outcome" where
  "toMsg m =
     (let amqpMsg = (case message m of None \<Rightarrow> amqp_NewMessage (Data m) | Some w \<Rightarrow> w);
          a1 = amqpMsg\<lparr>w_Properties := Some (toMsg_properties m)\<rparr>;
          a2 = (if len_map (UserProperties m) > 0
                then a1\<lparr>w_ApplicationProperties :=
                          Some (copy_into (entries (UserProperties m)) [])\<rparr>
                else a1)
      in case SystemProperties m of
           None \<Rightarrow> Return (Inr (toMsg_finish m a2))
         | Some sp \<Rightarrow>
             (case encodeStructureToMap (Pointer (Some (Struct (SystemProperties_fields sp)))) of
                Panic p \<Rightarrow> Panic p
              | Return (Inl err) \<Rightarrow> Return (Inl err)
              | Return (Inr sysPropMap) \<Rightarrow>
                  Return (Inr (toMsg_finish m
                    (a2\<lparr>w_Annotations := Some (annotationsFromMap sysPropMap)\<rparr>)))))"

section \<open>Inbound translation\<close>

text \<open>
  \<^verbatim>\<open>mapstructure.Decode\<close> belongs to another package; \<^verbatim>\<open>newMessage\<close> takes it as the
  parameter \<open>Decode\<close>, which gives for the annotations the system properties it leaves
  in the message and the error it returns.
\<close>

type_synonym decoder = "gomap \<Rightarrow> SystemProperties option \<times> error option"

text \<open>
  The block under \<^verbatim>\<open>if amqpMsg.Properties != nil\<close> (lines 361 to 377). The header is
  read through \<^verbatim>\<open>amqpMsg.Header\<close> with no test: a nil header is a nil dereference.
\<close>

definition newMessage_properties ::
  "Message \<Rightarrow> MessageProperties \<Rightarrow> MessageHeader option \<Rightarrow> Message outcome" where
  "newMessage_properties msg p header =
     (let m1 = (case p_MessageID p of VString s \<Rightarrow> msg\<lparr>ID := s\<rparr> | _ \<Rightarrow> msg);
          m2 = m1\<lparr>GroupID := Some (p_GroupID p), GroupSequence := Some (p_GroupSequence p)\<rparr>;
          m3 = (case p_CorrelationID p of VString s \<Rightarrow> m2\<lparr>CorrelationID := s\<rparr> | _ \<Rightarrow> m2);
          m4 = m3\<lparr>ContentType := p_ContentType p,
                  Label := p_Subject p,
                  To := p_To p,
                  ReplyTo := p_ReplyTo p,
                  ReplyToGroupID := p_ReplyToGroupID p\<rparr>
      in case header of
           None \<Rightarrow> Panic NilDereference
         | Some h \<Rightarrow> Return (m4\<lparr>DeliveryCount := h_DeliveryCount h + 1, TTL := Some (h_TTL h)\<rparr>))"

text \<open>The delivery tag (lines 391 to 399).\<close>

definition newMessage_lockToken :: "Message \<Rightarrow> amqp_Message \<Rightarrow> Message \<times> error option" where
  "newMessage_lockToken msg amqpMsg =
     (if length (w_DeliveryTag amqpMsg) > 0 then
        (case lockTokenFromMessageTag amqpMsg of
           Inl err \<Rightarrow> (msg, Some err)
         | Inr lockToken \<Rightarrow> (msg\<lparr>LockToken := Some lockToken\<rparr>, None))
      else (msg, None))"

text \<open>The application properties (lines 379 to 384).\<close>

definition newMessage_userProperties :: "Message \<Rightarrow> amqp_Message \<Rightarrow> Message" where
  "newMessage_userProperties msg amqpMsg =
     (case w_ApplicationProperties amqpMsg of
        None \<Rightarrow> msg
      | Some ap \<Rightarrow> msg\<lparr>UserProperties := Some (copy_into ap [])\<rparr>)"

text \<open>
  The annotations, then the delivery tag (lines 386 to 399). \<^verbatim>\<open>newMessage\<close> returns
  the message together with the error, also when the error is not nil.
\<close>

definition newMessage_annotations ::
  "decoder \<Rightarrow> Message \<Rightarrow> amqp_Message \<Rightarrow> Message \<times> error option" where
  "newMessage_annotations Decode msg amqpMsg =
     (case w_Annotations amqpMsg of
        None \<Rightarrow> newMessage_lockToken msg amqpMsg
      | Some annotations \<Rightarrow>
          (case Decode annotations of
             (sp, Some err) \<Rightarrow> (msg\<lparr>SystemProperties := sp\<rparr>, Some err)
           | (sp, None) \<Rightarrow> newMessage_lockToken (msg\<lparr>SystemProperties := sp\<rparr>) amqpMsg))"

definition newMessage ::
  "decoder \<Rightarrow> byte list \<Rightarrow> amqp_Message option \<Rightarrow> (Message \<times> error option) outcome" where
  "newMessage Decode data amqpMsg =
     (let msg = zero_Message\<lparr>Data := data, message := amqpMsg\<rparr>
      in case amqpMsg of
           None \<Rightarrow> Return (msg, None)
         | Some w \<Rightarrow>
             (case (case w_Properties w of
                      None \<Rightarrow> Return msg
                    | Some p \<Rightarrow> newMessage_properties msg p (w_Header w)) of
                Panic p \<Rightarrow> Panic p
              | Return m1 \<Rightarrow>
                  Return (newMessage_annotations Decode (newMessage_userProperties m1 w) w)))"

text \<open>
  \<^verbatim>\<open>messageFromAMQPMessage\<close> evaluates \<^verbatim>\<open>msg.Data[0]\<close> first: a nil \<^verbatim>\<open>msg\<close> is a nil
  dereference and an empty \<^verbatim>\<open>Data\<close> is an index out of range.
\<close>

definition messageFromAMQPMessage ::
  "decoder \<Rightarrow> amqp_Message option \<Rightarrow> (Message \<times> error option) outcome" where
  "messageFromAMQPMessage Decode msg =
     (case msg of
        None \<Rightarrow> Panic NilDereference
      | Some w \<Rightarrow>
          (case w_Data w of
             [] \<Rightarrow> Panic IndexOutOfRange
           | d # _ \<Rightarrow> newMessage Decode d msg))"

text \<open>Outbound translation followed by inbound translation of its result.\<close>

definition roundtrip :: "decoder \<Rightarrow> Message \<Rightarrow> (Message \<times> error option) outcome" where
  "roundtrip Decode m =
     (case toMsg m of
        Panic p \<Rightarrow> Panic p
      | Return (Inl err) \<Rightarrow> Return (m, Some err)
      | Return (Inr w) \<Rightarrow> messageFromAMQPMessage Decode (Some w))"

section \<open>Disposition actions\<close>

text \<open>
  The settlement calls of the transport. A disposition action is a closure over the
  message; run, it issues one settlement call on \<^verbatim>\<open>m.message\<close>. The result of running
  it is the wire message and the call issued on it; the tracing span has no part in it.
  A call on a nil wire message is a nil dereference in the transport. The argument of
  the action stands for the context.
\<close>

record amqp_Error =
  e_Condition :: string
  e_Description :: string
  e_Info :: "gomap option"

datatype settlement =
    Accept
  | Modify bool bool "gomap option"
  | Reject amqp_Error

type_synonym DispositionAction = "unit \<Rightarrow> (amqp_Message \<times> settlement) outcome"

text \<open>
  An \<^verbatim>\<open>error\<close> passed by a caller is the text its \<^verbatim>\<open>Error\<close> method returns; \<open>None\<close>
  is the nil error, on which the method call panics.
\<close>

type_synonym goerror = "string option"

definition settle :: "Message \<Rightarrow> settlement \<Rightarrow> (amqp_Message \<times> settlement) outcome" where
  "settle m s = (case message m of None \<Rightarrow> Panic NilDereference | Some w \<Rightarrow> Return (w, s))"

definition ErrorInternalError :: string where
  "ErrorInternalError = ''amqp:internal-error''"

definition ErrorPreconditionFailed :: string where
  "ErrorPreconditionFailed = ''amqp:precondition-failed''"

text \<open>The other ten constants of \<^verbatim>\<open>MessageErrorCondition\<close>, which is a string type.\<close>

definition MessageErrorConditions :: "string list" where
  "MessageErrorConditions =
     [ErrorInternalError, ''amqp:not-found'', ''amqp:unauthorized-access'',
      ''amqp:decode-error'', ''amqp:resource-limit-exceeded'', ''amqp:not-allowed'',
      ''amqp:invalid-field'', ''amqp:not-implemented'', ''amqp:resource-locked'',
      ErrorPreconditionFailed, ''amqp:resource-deleted'', ''amqp:illegal-state'']"

definition Complete :: "Message \<Rightarrow> DispositionAction" where
  "Complete m = (\<lambda>ctx. settle m Accept)"

definition Abandon :: "Message \<Rightarrow> DispositionAction" where
  "Abandon m = (\<lambda>ctx. settle m (Modify False False None))"

definition DeadLetter :: "Message \<Rightarrow> goerror \<Rightarrow> DispositionAction" where
  "DeadLetter m err =
     (\<lambda>ctx. case err of
        None \<Rightarrow> Panic NilDereference
      | Some text \<Rightarrow>
          settle m (Reject \<lparr>e_Condition = ErrorInternalError, e_Description = text,
                            e_Info = None\<rparr>))"

text \<open>
  \<^verbatim>\<open>DeadLetterWithInfo\<close> copies \<^verbatim>\<open>additionalData\<close> into \<^verbatim>\<open>info\<close> before it
  returns the closure; a nil \<^verbatim>\<open>additionalData\<close> leaves \<^verbatim>\<open>info\<close> nil.
\<close>

definition DeadLetterWithInfo ::
  "Message \<Rightarrow> goerror \<Rightarrow> string \<Rightarrow> (string \<times> string) list option \<Rightarrow> DispositionAction" where
  "DeadLetterWithInfo m err condition additionalData =
     (let info = (case additionalData of
                    None \<Rightarrow> None
                  | Some ad \<Rightarrow>
                      Some (fold (\<lambda>(key, val) acc. map_store key (VString val) acc) ad []))
      in (\<lambda>ctx. case err of
            None \<Rightarrow> Panic NilDereference
          | Some text \<Rightarrow>
              settle m (Reject \<lparr>e_Condition = condition, e_Description = text,
                                e_Info = info\<rparr>)))"

section \<open>Scheduling and the text-map carrier\<close>

definition empty_SystemProperties :: SystemProperties where
  "empty_SystemProperties =
     \<lparr>LockedUntil = None, SequenceNumber = None, PartitionID = None, PartitionKey = None,
      EnqueuedTime = None, DeadLetterSource = None, ScheduledEnqueueTime = None,
      EnqueuedSequenceNumber = None, ViaPartitionKey = None\<rparr>"

text \<open>The time is a number of nanoseconds, which \<^verbatim>\<open>t.UTC()\<close> does not change.\<close>

definition ScheduleAt :: "Message \<Rightarrow> int \<Rightarrow> Message" where
  "ScheduleAt m t =
     (let sp = (case SystemProperties m of None \<Rightarrow> empty_SystemProperties | Some sp \<Rightarrow> sp)
      in m\<lparr>SystemProperties := Some (sp\<lparr>ScheduledEnqueueTime := Some t\<rparr>)\<rparr>)"

definition Set_property :: "Message \<Rightarrow> string \<Rightarrow> string \<Rightarrow> Message" where
  "Set_property m key val =
     m\<lparr>UserProperties := Some (map_store key (VString val) (entries (UserProperties m)))\<rparr>"

text \<open>
  The loop of \<^verbatim>\<open>ForeachKey\<close> over the entries in the order \<^verbatim>\<open>range\<close> visits them.
  The handler can have effects: it takes a state and returns the new one. The assertion
  \<^verbatim>\<open>value.(string)\<close> has the one-result form, which panics on a value that is not a
  string. The result is the state the calls of the handler leave, and what the method
  returns.
\<close>

fun ForeachKey_range ::
  "(string \<Rightarrow> string \<Rightarrow> 's \<Rightarrow> goerror \<times> 's) \<Rightarrow> gomap \<Rightarrow> 's \<Rightarrow> 's \<times> goerror outcome" where
  "ForeachKey_range handler [] st = (st, Return None)"
| "ForeachKey_range handler ((key, val) # rest) st =
     (case val of
        VString s \<Rightarrow>
          (case handler key s st of
             (Some err, st') \<Rightarrow> (st', Return (Some err))
           | (None, st') \<Rightarrow> ForeachKey_range handler rest st')
      | _ \<Rightarrow> (st, Panic InterfaceConversion))"

definition ForeachKey ::
  "Message \<Rightarrow> (string \<Rightarrow> string \<Rightarrow> 's \<Rightarrow> goerror \<times> 's) \<Rightarrow> 's \<Rightarrow> 's \<times> goerror outcome" where
  "ForeachKey m handler st = ForeachKey_range handler (entries (UserProperties m)) st"

section \<open>Reference definitions\<close>

text \<open>A struct with one field of each kind the projector tells apart.\<close>

definition example_fields :: "StructField list" where
  "example_fields =
     [\<lparr>f_CanSet = True, f_Tag = Some ''a'', f_Value = PtrField (Some (VInt 7))\<rparr>,
      \<lparr>f_CanSet = True, f_Tag = Some ''b,persistempty'', f_Value = PtrField None\<rparr>,
      \<lparr>f_CanSet = True, f_Tag = Some ''c'', f_Value = PtrField None\<rparr>,
      \<lparr>f_CanSet = True, f_Tag = Some ''d'', f_Value = PlainField (VInt 0)\<rparr>,
      \<lparr>f_CanSet = True, f_Tag = Some ''e,persistempty'', f_Value = PlainField (VInt 0)\<rparr>,
      \<lparr>f_CanSet = True, f_Tag = Some '' f '', f_Value = PlainField (VString ''x'')\<rparr>,
      \<lparr>f_CanSet = True, f_Tag = None, f_Value = PlainField (VInt 3)\<rparr>,
      \<lparr>f_CanSet = False, f_Tag = Some ''h'', f_Value = PtrField (Some (VInt 9))\<rparr>]"

text \<open>
  What the specification asks of \<^verbatim>\<open>ForeachKey\<close> on string properties: the handler is
  called on the pairs in order, up to its first error, which is the result.
\<close>

fun handler_run ::
  "(string \<Rightarrow> string \<Rightarrow> 's \<Rightarrow> goerror \<times> 's) \<Rightarrow> (string \<times> string) list \<Rightarrow> 's \<Rightarrow> 's \<times> goerror" where
  "handler_run handler [] st = (st, None)"
| "handler_run handler ((key, s) # rest) st =
     (case handler key s st of
        (Some err, st') \<Rightarrow> (st', Some err)
      | (None, st') \<Rightarrow> handler_run handler rest st')"

text \<open>User properties that are all strings.\<close>

definition string_entries :: "(string \<times> string) list \<Rightarrow> gomap" where
  "string_entries ps = map (\<lambda>(key, s). (key, VString s)) ps"

text \<open>
  A decoder for examples, which finds no system property and returns no error, and the
  delivery count of the message a translation returns, if it returns one.
\<close>

definition no_annotations_decoded :: decoder where
  "no_annotations_decoded annotations = (None, None)"

definition returned_DeliveryCount :: "(Message \<times> error option) outcome \<Rightarrow> uint32 option" where
  "returned_DeliveryCount r =
     (case r of Panic p \<Rightarrow> None | Return (msg, err) \<Rightarrow> Some (DeliveryCount msg))"

section \<open>Properties of the lock-token codec\<close>

lemma length_16_cases:
  assumes "length (xs :: 'a list) = 16"
  obtains a0 a1 a2 a3 a4 a5 a6 a7 a8 a9 a10 a11 a12 a13 a14 a15
  where "xs = [a0, a1, a2, a3, a4, a5, a6, a7, a8, a9, a10, a11, a12, a13, a14, a15]"
proof -
  from assms have "length xs = Suc (Suc (Suc (Suc (Suc (Suc (Suc (Suc
      (Suc (Suc (Suc (Suc (Suc (Suc (Suc (Suc 0)))))))))))))))"
    by simp
  then show thesis
    using that by (auto simp: length_Suc_conv)
qed

lemma swapGuidBytes_explicit:
  "swapGuidBytes [a0, a1, a2, a3, a4, a5, a6, a7, a8, a9, a10, a11, a12, a13, a14, a15]
     = [a3, a2, a1, a0, a5, a4, a7, a6, a8, a9, a10, a11, a12, a13, a14, a15]"
  by (simp add: swapGuidBytes_def swapIndex_def)

lemma upper_half_index:
  "8 \<le> i \<Longrightarrow> i < 16 \<Longrightarrow> i \<in> {8, 9, 10, 11, 12, 13, 14, 15 :: nat}"
  by (simp add: insert_iff) arith

text \<open>
  Claim C1. For a delivery tag of exactly 16 bytes the codec returns a 16-byte identifier
  that is the tag with the bytes at (0,3), (1,2), (4,5) and (6,7) exchanged and the bytes
  8 to 15 unchanged; for a tag of any other length (0, 1, 15 and 17 among them) it
  returns the invalid-delivery-tag error and no identifier.
\<close>

theorem lockTokenFromMessageTag_spec:
  "(length (w_DeliveryTag msg) = 16 \<longrightarrow>
      (\<exists>r. lockTokenFromMessageTag msg = Inr r \<and> length r = 16 \<and>
           r ! 0 = w_DeliveryTag msg ! 3 \<and> r ! 3 = w_DeliveryTag msg ! 0 \<and>
           r ! 1 = w_DeliveryTag msg ! 2 \<and> r ! 2 = w_DeliveryTag msg ! 1 \<and>
           r ! 4 = w_DeliveryTag msg ! 5 \<and> r ! 5 = w_DeliveryTag msg ! 4 \<and>
           r ! 6 = w_DeliveryTag msg ! 7 \<and> r ! 7 = w_DeliveryTag msg ! 6 \<and>
           (\<forall>i. 8 \<le> i \<and> i < 16 \<longrightarrow> r ! i = w_DeliveryTag msg ! i))) \<and>
   (length (w_DeliveryTag msg) \<noteq> 16 \<longrightarrow>
      lockTokenFromMessageTag msg = Inl (InvalidDeliveryTag (w_DeliveryTag msg)))"
proof (intro conjI impI)
  assume len: "length (w_DeliveryTag msg) = 16"
  then obtain a0 a1 a2 a3 a4 a5 a6 a7 a8 a9 a10 a11 a12 a13 a14 a15
    where tag: "w_DeliveryTag msg =
      [a0, a1, a2, a3, a4, a5, a6, a7, a8, a9, a10, a11, a12, a13, a14, a15]"
    by (rule length_16_cases)
  let ?r = "[a3, a2, a1, a0, a5, a4, a7, a6, a8, a9, a10, a11, a12, a13, a14, a15]"
  have res: "lockTokenFromMessageTag msg = Inr ?r"
    by (simp add: lockTokenFromMessageTag_def tag swapGuidBytes_explicit)
  have upper: "\<forall>i. 8 \<le> i \<and> i < 16 \<longrightarrow> ?r ! i = w_DeliveryTag msg ! i"
  proof (intro allI impI)
    fix i :: nat
    assume "8 \<le> i \<and> i < 16"
    then have "i \<in> {8, 9, 10, 11, 12, 13, 14, 15}"
      using upper_half_index by blast
    then show "?r ! i = w_DeliveryTag msg ! i"
      by (auto simp: tag)
  qed
  show "\<exists>r. lockTokenFromMessageTag msg = Inr r \<and> length r = 16 \<and>
           r ! 0 = w_DeliveryTag msg ! 3 \<and> r ! 3 = w_DeliveryTag msg ! 0 \<and>
           r ! 1 = w_DeliveryTag msg ! 2 \<and> r ! 2 = w_DeliveryTag msg ! 1 \<and>
           r ! 4 = w_DeliveryTag msg ! 5 \<and> r ! 5 = w_DeliveryTag msg ! 4 \<and>
           r ! 6 = w_DeliveryTag msg ! 7 \<and> r ! 7 = w_DeliveryTag msg ! 6 \<and>
           (\<forall>i. 8 \<le> i \<and> i < 16 \<longrightarrow> r ! i = w_DeliveryTag msg ! i)"
    using res upper by (simp add: tag)
next
  assume "length (w_DeliveryTag msg) \<noteq> 16"
  then show "lockTokenFromMessageTag msg = Inl (InvalidDeliveryTag (w_DeliveryTag msg))"
    by (simp add: lockTokenFromMessageTag_def)
qed

theorem lockTokenFromMessageTag_spec_witness:
  "length (w_DeliveryTag \<lparr>w_Data = [], w_Properties = None, w_Header = None,
        w_ApplicationProperties = None, w_Annotations = None, w_DeliveryAnnotations = None,
        w_DeliveryTag = [0, 1, 2, 3, 4, 5, 6, 7, 8, 9, 10, 11, 12, 13, 14, 15]\<rparr>) = 16 \<and>
   lockTokenFromMessageTag \<lparr>w_Data = [], w_Properties = None, w_Header = None,
        w_ApplicationProperties = None, w_Annotations = None, w_DeliveryAnnotations = None,
        w_DeliveryTag = [0, 1, 2, 3, 4, 5, 6, 7, 8, 9, 10, 11, 12, 13, 14, 15]\<rparr>
     = Inr [3, 2, 1, 0, 5, 4, 7, 6, 8, 9, 10, 11, 12, 13, 14, 15] \<and>
   length (w_DeliveryTag \<lparr>w_Data = [], w_Properties = None, w_Header = None,
        w_ApplicationProperties = None, w_Annotations = None, w_DeliveryAnnotations = None,
        w_DeliveryTag = [0, 1, 2, 3, 4, 5, 6, 7, 8, 9, 10, 11, 12, 13, 14, 15, 16]\<rparr>) \<noteq> 16 \<and>
   lockTokenFromMessageTag \<lparr>w_Data = [], w_Properties = None, w_Header = None,
        w_ApplicationProperties = None, w_Annotations = None, w_DeliveryAnnotations = None,
        w_DeliveryTag = [0, 1, 2, 3, 4, 5, 6, 7, 8, 9, 10, 11, 12, 13, 14, 15, 16]\<rparr>
     = Inl (InvalidDeliveryTag [0, 1, 2, 3, 4, 5, 6, 7, 8, 9, 10, 11, 12, 13, 14, 15, 16])"
  using lockTokenFromMessageTag_spec [of "\<lparr>w_Data = [], w_Properties = None, w_Header = None,
        w_ApplicationProperties = None, w_Annotations = None, w_DeliveryAnnotations = None,
        w_DeliveryTag = [0, 1, 2, 3, 4, 5, 6, 7, 8, 9, 10, 11, 12, 13, 14, 15]\<rparr>"]
    lockTokenFromMessageTag_spec [of "\<lparr>w_Data = [], w_Properties = None, w_Header = None,
        w_ApplicationProperties = None, w_Annotations = None, w_DeliveryAnnotations = None,
        w_DeliveryTag = [0, 1, 2, 3, 4, 5, 6, 7, 8, 9, 10, 11, 12, 13, 14, 15, 16]\<rparr>"]
  by (simp add: lockTokenFromMessageTag_def swapGuidBytes_explicit)

text \<open>
  Claim C6. On every 16-byte array the four-pair swap of the codec is its own inverse.
\<close>

theorem swapGuidBytes_involution:
  "length xs = 16 \<Longrightarrow> swapGuidBytes (swapGuidBytes xs) = xs"
proof -
  assume "length xs = 16"
  then obtain a0 a1 a2 a3 a4 a5 a6 a7 a8 a9 a10 a11 a12 a13 a14 a15
    where "xs = [a0, a1, a2, a3, a4, a5, a6, a7, a8, a9, a10, a11, a12, a13, a14, a15]"
    by (rule length_16_cases)
  then show ?thesis
    by (simp add: swapGuidBytes_explicit)
qed

theorem swapGuidBytes_involution_witness:
  "length [0, 1, 2, 3, 4, 5, 6, 7, 8, 9, 10, 11, 12, 13, 14, 15 :: byte] = 16 \<and>
   swapGuidBytes (swapGuidBytes [0, 1, 2, 3, 4, 5, 6, 7, 8, 9, 10, 11, 12, 13, 14, 15])
     = [0, 1, 2, 3, 4, 5, 6, 7, 8, 9, 10, 11, 12, 13, 14, 15]"
  using swapGuidBytes_involution [of "[0, 1, 2, 3, 4, 5, 6, 7, 8, 9, 10, 11, 12, 13, 14, 15]"]
  by simp

section \<open>Properties of the tag parser\<close>

lemma Split_from_nonempty: "Split_from cur s \<noteq> []"
  by (induction s arbitrary: cur) auto

lemma Split_comma_nonempty: "Split_comma s \<noteq> []"
  by (simp add: Split_comma_def Split_from_nonempty)

text \<open>
  The split is the inverse of joining with commas, and no token holds a comma: the
  tokens are the comma-separated pieces of the string.
\<close>

lemma join_comma_Cons: "ts \<noteq> [] \<Longrightarrow> join_comma (t # ts) = t @ CHR '','' # join_comma ts"
  by (cases ts) auto

lemma join_Split_from: "join_comma (Split_from cur s) = cur @ s"
  by (induction s arbitrary: cur) (auto simp: join_comma_Cons Split_from_nonempty)

lemma join_Split_comma: "join_comma (Split_comma s) = s"
  by (simp add: Split_comma_def join_Split_from)

lemma Split_from_no_comma:
  "CHR '','' \<notin> set cur \<Longrightarrow> t \<in> set (Split_from cur s) \<Longrightarrow> CHR '','' \<notin> set t"
proof (induction s arbitrary: cur)
  case Nil
  then show ?case by simp
next
  case (Cons c cs)
  show ?case
  proof (cases "c = CHR '',''")
    case True
    with Cons.prems have "t = cur \<or> t \<in> set (Split_from [] cs)" by simp
    then show ?thesis
      using Cons.prems(1) Cons.IH [of "[]"] by auto
  next
    case False
    with Cons.prems have "t \<in> set (Split_from (cur @ [c]) cs)" by simp
    moreover from False Cons.prems(1) have "CHR '','' \<notin> set (cur @ [c])" by simp
    ultimately show ?thesis by (rule Cons.IH [rotated])
  qed
qed

lemma Split_comma_no_comma: "t \<in> set (Split_comma s) \<Longrightarrow> CHR '','' \<notin> set t"
  using Split_from_no_comma [of "[]" t s] by (simp add: Split_comma_def)

text \<open>Trimming removes a prefix and a suffix and nothing else.\<close>

lemma TrimLeftSeqs_no_leading: "leading ws (TrimLeftSeqs ws s) = None"
proof (induction ws s rule: TrimLeftSeqs.induct)
  case (1 ws s)
  show ?case
  proof (cases "leading ws s")
    case None
    then show ?thesis by (simp add: TrimLeftSeqs.simps [of ws s])
  next
    case (Some w)
    with "1.IH" [OF Some] show ?thesis by (simp add: TrimLeftSeqs.simps [of ws s])
  qed
qed

lemma TrimLeftSeqs_suffix: "\<exists>pre. s = pre @ TrimLeftSeqs ws s"
proof (induction ws s rule: TrimLeftSeqs.induct)
  case (1 ws s)
  show ?case
  proof (cases "leading ws s")
    case None
    then show ?thesis by (simp add: TrimLeftSeqs.simps [of ws s])
  next
    case (Some w)
    from "1.IH" [OF Some] obtain pre where
      "drop (length w) s = pre @ TrimLeftSeqs ws (drop (length w) s)" by blast
    then have "s = (take (length w) s @ pre) @ TrimLeftSeqs ws (drop (length w) s)"
      by (metis append_take_drop_id append.assoc)
    then have "\<exists>p. s = p @ TrimLeftSeqs ws (drop (length w) s)"
      by (rule exI)
    with Some show ?thesis by (simp add: TrimLeftSeqs.simps [of ws s])
  qed
qed

text \<open>
  The trimmed string is a piece of the string, and it neither starts nor ends with a
  white-space rune.
\<close>

lemma TrimSpace_infix: "\<exists>pre post. s = pre @ TrimSpace s @ post"
proof -
  obtain pre where p: "s = pre @ TrimLeftSeqs unicode_spaces s"
    using TrimLeftSeqs_suffix by blast
  let ?t = "TrimLeftSeqs unicode_spaces s"
  obtain q where "rev ?t = q @ TrimLeftSeqs (map rev unicode_spaces) (rev ?t)"
    using TrimLeftSeqs_suffix by blast
  then have "rev (rev ?t) = rev (q @ TrimLeftSeqs (map rev unicode_spaces) (rev ?t))"
    by simp
  then have "?t = TrimSpace s @ rev q"
    by (simp add: TrimSpace_def)
  with p have "s = pre @ TrimSpace s @ rev q" by simp
  then show ?thesis by blast
qed

lemma leading_append:
  assumes "leading ws p = Some w"
  shows "leading ws (p @ q) \<noteq> None"
proof -
  from assms have w: "w \<in> set ws" "w \<noteq> []" "take (length w) p = w"
    by (auto simp: leading_def find_Some_iff)
  have "length (take (length w) p) \<le> length p" by simp
  with w(3) have "length w \<le> length p" by simp
  with w(3) have "take (length w) (p @ q) = w" by simp
  with w(1,2) show ?thesis
    by (auto simp: leading_def find_None_iff)
qed

lemma TrimSpace_no_leading: "leading unicode_spaces (TrimSpace s) = None"
proof (rule ccontr)
  assume "leading unicode_spaces (TrimSpace s) \<noteq> None"
  then obtain w where w: "leading unicode_spaces (TrimSpace s) = Some w" by auto
  let ?t = "TrimLeftSeqs unicode_spaces s"
  obtain q where "rev ?t = q @ TrimLeftSeqs (map rev unicode_spaces) (rev ?t)"
    using TrimLeftSeqs_suffix by blast
  then have "rev (rev ?t) = rev (q @ TrimLeftSeqs (map rev unicode_spaces) (rev ?t))"
    by simp
  then have "?t = TrimSpace s @ rev q"
    by (simp add: TrimSpace_def)
  with leading_append [OF w, of "rev q"] have "leading unicode_spaces ?t \<noteq> None"
    by simp
  then show False by (simp add: TrimLeftSeqs_no_leading)
qed

lemma TrimSpace_no_trailing:
  "leading (map rev unicode_spaces) (rev (TrimSpace s)) = None"
  by (simp add: TrimSpace_def TrimLeftSeqs_no_leading)

lemma tagOptions_all:
  "\<forall>t \<in> set ts. t = ''persistempty'' \<Longrightarrow>
     tagOptions ts persist = Inr (persist \<or> ts \<noteq> [])"
  by (induction ts arbitrary: persist) auto

lemma tagOptions_bad:
  "\<exists>t \<in> set ts. t \<noteq> ''persistempty'' \<Longrightarrow>
     tagOptions ts persist =
       Inl (UnrecognizedTagOption (hd (filter (\<lambda>t. t \<noteq> ''persistempty'') ts)))"
  by (induction ts arbitrary: persist) auto

lemma parseMapStructureTag_absent: "parseMapStructureTag None = Inr None"
  by (simp add: parseMapStructureTag_def)

lemma parseMapStructureTag_ok:
  assumes ok: "\<forall>t \<in> set (tl (Split_comma str)). t = ''persistempty''"
  shows "parseMapStructureTag (Some str) =
        Inr (Some \<lparr>Name = TrimSpace (hd (Split_comma str)),
                   PersistEmpty = (''persistempty'' \<in> set (tl (Split_comma str)))\<rparr>)"
proof -
  obtain t ts where r: "Split_comma str = t # ts"
    using Split_comma_nonempty [of str] by (cases "Split_comma str") auto
  from ok r have all: "\<forall>u \<in> set ts. u = ''persistempty''" by simp
  then have mem: "(''persistempty'' \<in> set ts) = (ts \<noteq> [])"
    by (cases ts) auto
  show ?thesis
    using tagOptions_all [OF all, of False] mem
    by (cases ts) (simp_all add: parseMapStructureTag_def r)
qed

lemma parseMapStructureTag_bad:
  assumes bad: "\<exists>t \<in> set (tl (Split_comma str)). t \<noteq> ''persistempty''"
  shows "parseMapStructureTag (Some str) =
        Inl (UnrecognizedTagOption
              (hd (filter (\<lambda>t. t \<noteq> ''persistempty'') (tl (Split_comma str)))))"
proof -
  obtain t ts where r: "Split_comma str = t # ts"
    using Split_comma_nonempty [of str] by (cases "Split_comma str") auto
  from bad r have ex: "\<exists>u \<in> set ts. u \<noteq> ''persistempty''" by simp
  then have "ts \<noteq> []" by auto
  then show ?thesis
    using tagOptions_bad [OF ex, of False]
    by (cases ts) (simp_all add: parseMapStructureTag_def r)
qed

text \<open>
  Claim C7. A field without the annotation gives the not-present result and no error.
  Otherwise the parser returns the name, which is the first comma-separated token with
  the surrounding white space removed, and PersistEmpty, which is true exactly when a
  later token is \<^verbatim>\<open>persistempty\<close>; a later token that is anything else makes the parser
  fail with an error that carries that token (the first such token).
\<close>

theorem parseMapStructureTag_spec:
  "parseMapStructureTag None = Inr None \<and>
   ((\<forall>t \<in> set (tl (Split_comma str)). t = ''persistempty'') \<longrightarrow>
      parseMapStructureTag (Some str) =
        Inr (Some \<lparr>Name = TrimSpace (hd (Split_comma str)),
                   PersistEmpty = (''persistempty'' \<in> set (tl (Split_comma str)))\<rparr>)) \<and>
   ((\<exists>t \<in> set (tl (Split_comma str)). t \<noteq> ''persistempty'') \<longrightarrow>
      (\<exists>bad. parseMapStructureTag (Some str) = Inl (UnrecognizedTagOption bad) \<and>
             bad \<in> set (tl (Split_comma str)) \<and> bad \<noteq> ''persistempty'' \<and>
             bad = hd (filter (\<lambda>t. t \<noteq> ''persistempty'') (tl (Split_comma str)))))"
proof (intro conjI impI)
  show "parseMapStructureTag None = Inr None"
    by (rule parseMapStructureTag_absent)
next
  assume "\<forall>t \<in> set (tl (Split_comma str)). t = ''persistempty''"
  then show "parseMapStructureTag (Some str) =
        Inr (Some \<lparr>Name = TrimSpace (hd (Split_comma str)),
                   PersistEmpty = (''persistempty'' \<in> set (tl (Split_comma str)))\<rparr>)"
    by (rule parseMapStructureTag_ok)
next
  assume bad: "\<exists>t \<in> set (tl (Split_comma str)). t \<noteq> ''persistempty''"
  let ?b = "hd (filter (\<lambda>t. t \<noteq> ''persistempty'') (tl (Split_comma str)))"
  from bad have "filter (\<lambda>t. t \<noteq> ''persistempty'') (tl (Split_comma str)) \<noteq> []"
    by (simp add: filter_empty_conv)
  then have "?b \<in> set (filter (\<lambda>t. t \<noteq> ''persistempty'') (tl (Split_comma str)))"
    by (rule hd_in_set)
  then have "?b \<in> set (tl (Split_comma str)) \<and> ?b \<noteq> ''persistempty''"
    by simp
  with parseMapStructureTag_bad [OF bad]
  show "\<exists>bad. parseMapStructureTag (Some str) = Inl (UnrecognizedTagOption bad) \<and>
             bad \<in> set (tl (Split_comma str)) \<and> bad \<noteq> ''persistempty'' \<and>
             bad = hd (filter (\<lambda>t. t \<noteq> ''persistempty'') (tl (Split_comma str)))"
    by blast
qed

theorem parseMapStructureTag_spec_witness:
  "tl (Split_comma '' x-opt-key ,persistempty'') = [''persistempty''] \<and>
   parseMapStructureTag (Some '' x-opt-key ,persistempty'') =
     Inr (Some \<lparr>Name = ''x-opt-key'', PersistEmpty = True\<rparr>) \<and>
   tl (Split_comma ''k,persistempty, persistempty,omitempty'') =
     [''persistempty'', '' persistempty'', ''omitempty''] \<and>
   parseMapStructureTag (Some ''k,persistempty, persistempty,omitempty'') =
     Inl (UnrecognizedTagOption '' persistempty'')"
proof -
  have s1: "tl (Split_comma '' x-opt-key ,persistempty'') = [''persistempty'']"
    by code_simp
  have n1: "TrimSpace (hd (Split_comma '' x-opt-key ,persistempty'')) = ''x-opt-key''"
    by code_simp
  have s2: "tl (Split_comma ''k,persistempty, persistempty,omitempty'') =
     [''persistempty'', '' persistempty'', ''omitempty'']"
    by code_simp
  have r1: "parseMapStructureTag (Some '' x-opt-key ,persistempty'') =
     Inr (Some \<lparr>Name = ''x-opt-key'', PersistEmpty = True\<rparr>)"
    using parseMapStructureTag_spec [of "'' x-opt-key ,persistempty''"]
    by (simp add: s1 n1)
  have r2: "parseMapStructureTag (Some ''k,persistempty, persistempty,omitempty'') =
     Inl (UnrecognizedTagOption '' persistempty'')"
    using parseMapStructureTag_spec [of "''k,persistempty, persistempty,omitempty''"]
    by (simp add: s2)
  from s1 r1 s2 r2 show ?thesis by simp
qed

section \<open>Properties of inbound translation\<close>

lemma newMessage_lockToken_shape:
  "\<exists>l err. newMessage_lockToken m w = (m\<lparr>LockToken := l\<rparr>, err)"
proof (cases "length (w_DeliveryTag w) > 0")
  case False
  then have "newMessage_lockToken m w = (m\<lparr>LockToken := LockToken m\<rparr>, None)"
    by (simp add: newMessage_lockToken_def)
  then show ?thesis by (intro exI)
next
  case True
  show ?thesis
  proof (cases "lockTokenFromMessageTag w")
    case (Inl e)
    with True have "newMessage_lockToken m w = (m\<lparr>LockToken := LockToken m\<rparr>, Some e)"
      by (simp add: newMessage_lockToken_def)
    then show ?thesis by (intro exI)
  next
    case (Inr t)
    with True have "newMessage_lockToken m w = (m\<lparr>LockToken := Some t\<rparr>, None)"
      by (simp add: newMessage_lockToken_def)
    then show ?thesis by (intro exI)
  qed
qed

lemma newMessage_annotations_shape:
  "\<exists>s l err. newMessage_annotations Decode m w =
     (m\<lparr>SystemProperties := s, LockToken := l\<rparr>, err)"
proof (cases "w_Annotations w")
  case None
  obtain l err where "newMessage_lockToken m w = (m\<lparr>LockToken := l\<rparr>, err)"
    using newMessage_lockToken_shape by blast
  with None have "newMessage_annotations Decode m w =
      (m\<lparr>SystemProperties := SystemProperties m, LockToken := l\<rparr>, err)"
    by (simp add: newMessage_annotations_def)
  then show ?thesis by (intro exI)
next
  case (Some an)
  obtain sp de where d: "Decode an = (sp, de)" by (cases "Decode an")
  show ?thesis
  proof (cases de)
    case None
    obtain l err where "newMessage_lockToken (m\<lparr>SystemProperties := sp\<rparr>) w
          = (m\<lparr>SystemProperties := sp, LockToken := l\<rparr>, err)"
      using newMessage_lockToken_shape [of "m\<lparr>SystemProperties := sp\<rparr>" w] by blast
    with None Some d have "newMessage_annotations Decode m w =
      (m\<lparr>SystemProperties := sp, LockToken := l\<rparr>, err)"
      by (simp add: newMessage_annotations_def)
    then show ?thesis by (intro exI)
  next
    case (Some e)
    with \<open>w_Annotations w = Some an\<close> d have "newMessage_annotations Decode m w =
      (m\<lparr>SystemProperties := sp, LockToken := LockToken m\<rparr>, Some e)"
      by (simp add: newMessage_annotations_def)
    then show ?thesis by (intro exI)
  qed
qed

lemma newMessage_userProperties_shape:
  "newMessage_userProperties m w =
     m\<lparr>UserProperties :=
         (case w_ApplicationProperties w of
            None \<Rightarrow> UserProperties m
          | Some ap \<Rightarrow> Some (copy_into ap []))\<rparr>"
  by (cases "w_ApplicationProperties w") (simp_all add: newMessage_userProperties_def)

lemma newMessage_tail_shape:
  "\<exists>s l err. newMessage_annotations Decode (newMessage_userProperties m w) w =
     (m\<lparr>UserProperties :=
          (case w_ApplicationProperties w of
             None \<Rightarrow> UserProperties m
           | Some ap \<Rightarrow> Some (copy_into ap [])),
        SystemProperties := s, LockToken := l\<rparr>, err)"
proof -
  let ?u = "case w_ApplicationProperties w of
              None \<Rightarrow> UserProperties m
            | Some ap \<Rightarrow> Some (copy_into ap [])"
  have u: "newMessage_userProperties m w = m\<lparr>UserProperties := ?u\<rparr>"
    by (rule newMessage_userProperties_shape)
  obtain s l err where "newMessage_annotations Decode (m\<lparr>UserProperties := ?u\<rparr>) w =
     (m\<lparr>UserProperties := ?u, SystemProperties := s, LockToken := l\<rparr>, err)"
    using newMessage_annotations_shape [of Decode "m\<lparr>UserProperties := ?u\<rparr>" w] by blast
  with u have "newMessage_annotations Decode (newMessage_userProperties m w) w =
     (m\<lparr>UserProperties := ?u, SystemProperties := s, LockToken := l\<rparr>, err)"
    by simp
  then show ?thesis by (intro exI)
qed

text \<open>The message after the properties block, when the header is there.\<close>

lemma newMessage_properties_header:
  "\<exists>m1. newMessage_properties msg p (Some h) = Return m1 \<and>
     DeliveryCount m1 = h_DeliveryCount h + 1 \<and> TTL m1 = Some (h_TTL h) \<and>
     Data m1 = Data msg \<and> ContentType m1 = p_ContentType p \<and> Label m1 = p_Subject p \<and>
     To m1 = p_To p \<and> ReplyTo m1 = p_ReplyTo p \<and> ReplyToGroupID m1 = p_ReplyToGroupID p \<and>
     CorrelationID m1 = (case p_CorrelationID p of VString s \<Rightarrow> s | _ \<Rightarrow> CorrelationID msg) \<and>
     UserProperties m1 = UserProperties msg"
  by (cases "p_MessageID p"; cases "p_CorrelationID p")
     (simp_all add: newMessage_properties_def)

lemma newMessage_properties_no_header:
  "newMessage_properties msg p None = Panic NilDereference"
  by (simp add: newMessage_properties_def Let_def)

lemma newMessage_nil: "newMessage Decode data None =
    Return (zero_Message\<lparr>Data := data, message := None\<rparr>, None)"
  by (simp add: newMessage_def)

lemma newMessage_no_header:
  "w_Properties w = Some p \<Longrightarrow> w_Header w = None \<Longrightarrow>
     newMessage Decode data (Some w) = Panic NilDereference"
  by (simp add: newMessage_def newMessage_properties_no_header)

lemma newMessage_no_properties:
  assumes "w_Properties w = None"
  shows "\<exists>msg err. newMessage Decode data (Some w) = Return (msg, err) \<and>
           DeliveryCount msg = 0 \<and> TTL msg = None \<and> Data msg = data"
proof -
  let ?m0 = "zero_Message\<lparr>Data := data, message := Some w\<rparr>"
  let ?u = "case w_ApplicationProperties w of
              None \<Rightarrow> UserProperties ?m0
            | Some ap \<Rightarrow> Some (copy_into ap [])"
  obtain s l err where
    "newMessage_annotations Decode (newMessage_userProperties ?m0 w) w =
       (?m0\<lparr>UserProperties := ?u, SystemProperties := s, LockToken := l\<rparr>, err)"
    using newMessage_tail_shape [of Decode ?m0 w] by blast
  with assms have "newMessage Decode data (Some w) =
      Return (?m0\<lparr>UserProperties := ?u, SystemProperties := s, LockToken := l\<rparr>, err)"
    by (simp add: newMessage_def)
  then show ?thesis by (simp add: zero_Message_def)
qed

lemma newMessage_header:
  assumes "w_Properties w = Some p" and "w_Header w = Some h"
  shows "\<exists>msg err. newMessage Decode data (Some w) = Return (msg, err) \<and>
           DeliveryCount msg = h_DeliveryCount h + 1 \<and> TTL msg = Some (h_TTL h) \<and>
           Data msg = data \<and> ContentType msg = p_ContentType p \<and> Label msg = p_Subject p \<and>
           To msg = p_To p \<and> ReplyTo msg = p_ReplyTo p \<and>
           ReplyToGroupID msg = p_ReplyToGroupID p \<and>
           CorrelationID msg = (case p_CorrelationID p of VString s \<Rightarrow> s | _ \<Rightarrow> []) \<and>
           UserProperties msg = map_option (\<lambda>ap. copy_into ap []) (w_ApplicationProperties w)"
proof -
  let ?m0 = "zero_Message\<lparr>Data := data, message := Some w\<rparr>"
  obtain m1 where m1: "newMessage_properties ?m0 p (Some h) = Return m1"
    and f: "DeliveryCount m1 = h_DeliveryCount h + 1" "TTL m1 = Some (h_TTL h)"
     "Data m1 = Data ?m0" "ContentType m1 = p_ContentType p" "Label m1 = p_Subject p"
     "To m1 = p_To p" "ReplyTo m1 = p_ReplyTo p" "ReplyToGroupID m1 = p_ReplyToGroupID p"
     "CorrelationID m1 = (case p_CorrelationID p of VString s \<Rightarrow> s | _ \<Rightarrow> CorrelationID ?m0)"
     "UserProperties m1 = UserProperties ?m0"
    using newMessage_properties_header [of ?m0 p h] by blast
  let ?u = "case w_ApplicationProperties w of
              None \<Rightarrow> UserProperties m1
            | Some ap \<Rightarrow> Some (copy_into ap [])"
  obtain s l err where
    "newMessage_annotations Decode (newMessage_userProperties m1 w) w =
       (m1\<lparr>UserProperties := ?u, SystemProperties := s, LockToken := l\<rparr>, err)"
    using newMessage_tail_shape [of Decode m1 w] by blast
  with assms m1 have "newMessage Decode data (Some w) =
      Return (m1\<lparr>UserProperties := ?u, SystemProperties := s, LockToken := l\<rparr>, err)"
    by (simp add: newMessage_def)
  with f show ?thesis
    by (cases "p_CorrelationID p"; cases "w_ApplicationProperties w")
       (simp_all add: zero_Message_def)
qed

text \<open>
  Claim C10. Whenever the properties block of the wire message is present,
  \<^verbatim>\<open>newMessage\<close> reads the delivery count and the time-to-live through the header
  with no test that the header is there. With a properties block and no header it panics
  on the nil dereference; with no properties block, or with a header, it returns. With
  both blocks the delivery count and the time-to-live are the header's (the count plus
  one); with no properties block, and for a nil wire message, the message keeps the
  delivery count 0 and a nil time-to-live.
\<close>

theorem newMessage_header_precondition:
  "(w_Properties w \<noteq> None \<and> w_Header w = None \<longrightarrow>
      newMessage Decode data (Some w) = Panic NilDereference) \<and>
   (w_Properties w = None \<or> w_Header w \<noteq> None \<longrightarrow>
      (\<exists>msg err. newMessage Decode data (Some w) = Return (msg, err))) \<and>
   (\<forall>h. w_Properties w \<noteq> None \<and> w_Header w = Some h \<longrightarrow>
      (\<exists>msg err. newMessage Decode data (Some w) = Return (msg, err) \<and>
         DeliveryCount msg = h_DeliveryCount h + 1 \<and> TTL msg = Some (h_TTL h))) \<and>
   (w_Properties w = None \<longrightarrow>
      (\<exists>msg err. newMessage Decode data (Some w) = Return (msg, err) \<and>
         DeliveryCount msg = 0 \<and> TTL msg = None)) \<and>
   (\<exists>msg. newMessage Decode data None = Return (msg, None) \<and>
         DeliveryCount msg = 0 \<and> TTL msg = None)"
proof (intro conjI impI allI)
  assume "w_Properties w \<noteq> None \<and> w_Header w = None"
  then show "newMessage Decode data (Some w) = Panic NilDereference"
    using newMessage_no_header by auto
next
  assume a: "w_Properties w = None \<or> w_Header w \<noteq> None"
  show "\<exists>msg err. newMessage Decode data (Some w) = Return (msg, err)"
  proof (cases "w_Properties w")
    case None
    then show ?thesis using newMessage_no_properties [of w Decode data] by blast
  next
    case (Some p)
    with a obtain h where "w_Header w = Some h" by auto
    with Some show ?thesis using newMessage_header [of w p h Decode data] by blast
  qed
next
  fix h
  assume "w_Properties w \<noteq> None \<and> w_Header w = Some h"
  then obtain p where "w_Properties w = Some p" "w_Header w = Some h" by auto
  then show "\<exists>msg err. newMessage Decode data (Some w) = Return (msg, err) \<and>
         DeliveryCount msg = h_DeliveryCount h + 1 \<and> TTL msg = Some (h_TTL h)"
    using newMessage_header [of w p h Decode data] by blast
next
  assume "w_Properties w = None"
  then show "\<exists>msg err. newMessage Decode data (Some w) = Return (msg, err) \<and>
         DeliveryCount msg = 0 \<and> TTL msg = None"
    using newMessage_no_properties [of w Decode data] by blast
next
  show "\<exists>msg. newMessage Decode data None = Return (msg, None) \<and>
         DeliveryCount msg = 0 \<and> TTL msg = None"
    by (simp add: newMessage_nil zero_Message_def)
qed

theorem newMessage_header_precondition_witness:
  "w_Properties ((amqp_NewMessage [])\<lparr>w_Properties := Some (toMsg_properties zero_Message)\<rparr>)
     = Some (toMsg_properties zero_Message) \<and>
   w_Header ((amqp_NewMessage [])\<lparr>w_Properties := Some (toMsg_properties zero_Message)\<rparr>)
     = None \<and>
   newMessage (\<lambda>a. (None, None)) []
     (Some ((amqp_NewMessage [])\<lparr>w_Properties := Some (toMsg_properties zero_Message)\<rparr>))
     = Panic NilDereference \<and>
   (\<exists>msg err. newMessage (\<lambda>a. (None, None)) []
       (Some ((amqp_NewMessage [])\<lparr>w_Properties := Some (toMsg_properties zero_Message),
                w_Header := Some \<lparr>h_TTL = 30, h_DeliveryCount = 2\<rparr>\<rparr>)) = Return (msg, err) \<and>
       DeliveryCount msg = 3 \<and> TTL msg = Some 30) \<and>
   w_Properties (amqp_NewMessage []) = None \<and>
   (\<exists>msg err. newMessage (\<lambda>a. (None, None)) [] (Some (amqp_NewMessage [])) = Return (msg, err) \<and>
       DeliveryCount msg = 0 \<and> TTL msg = None)"
  using
    newMessage_header_precondition [of
      "(amqp_NewMessage [])\<lparr>w_Properties := Some (toMsg_properties zero_Message)\<rparr>"
      "\<lambda>a. (None, None)" "[]"]
    newMessage_header_precondition [of
      "(amqp_NewMessage [])\<lparr>w_Properties := Some (toMsg_properties zero_Message),
                w_Header := Some \<lparr>h_TTL = 30, h_DeliveryCount = 2\<rparr>\<rparr>"
      "\<lambda>a. (None, None)" "[]"]
    newMessage_header_precondition [of "amqp_NewMessage []" "\<lambda>a. (None, None)" "[]"]
  by (simp add: amqp_NewMessage_def)

lemma unat_succ_uint32: "unat (x + 1 :: uint32) = (unat x + 1) mod 2 ^ 32"
  by (simp add: unat_word_ariths)

text \<open>
  Claim C5, as the code has it. For a wire message with a properties block and a header
  block, \<^verbatim>\<open>newMessage\<close> returns a message whose delivery count is the header's
  delivery count plus one in the 32-bit unsigned arithmetic of the two fields, that is
  plus one modulo \<open>2 ^ 32\<close>: exactly one more for every count below \<open>2 ^ 32 - 1\<close>
  (0 gives 1 and 5 gives 6), and 0 for the count \<open>2 ^ 32 - 1\<close>.
\<close>

theorem newMessage_DeliveryCount:
  assumes "w_Properties w = Some p" and "w_Header w = Some h"
  shows "\<exists>msg err. newMessage Decode data (Some w) = Return (msg, err) \<and>
           DeliveryCount msg = h_DeliveryCount h + 1 \<and>
           unat (DeliveryCount msg) = (unat (h_DeliveryCount h) + 1) mod 2 ^ 32 \<and>
           (unat (h_DeliveryCount h) < 2 ^ 32 - 1 \<longrightarrow>
              unat (DeliveryCount msg) = unat (h_DeliveryCount h) + 1) \<and>
           (h_DeliveryCount h = 0 \<longrightarrow> DeliveryCount msg = 1) \<and>
           (h_DeliveryCount h = 5 \<longrightarrow> DeliveryCount msg = 6) \<and>
           (h_DeliveryCount h = 4294967295 \<longrightarrow> DeliveryCount msg = 0)"
proof -
  obtain msg err where r: "newMessage Decode data (Some w) = Return (msg, err)"
    and d: "DeliveryCount msg = h_DeliveryCount h + 1"
    using newMessage_header [OF assms, of Decode data] by blast
  from d have m: "unat (DeliveryCount msg) = (unat (h_DeliveryCount h) + 1) mod 2 ^ 32"
    by (simp add: unat_succ_uint32)
  have below: "unat (h_DeliveryCount h) < 2 ^ 32 - 1 \<longrightarrow>
      unat (DeliveryCount msg) = unat (h_DeliveryCount h) + 1"
  proof
    assume "unat (h_DeliveryCount h) < 2 ^ 32 - 1"
    then have "unat (h_DeliveryCount h) + 1 < 2 ^ 32" by simp
    with m show "unat (DeliveryCount msg) = unat (h_DeliveryCount h) + 1" by simp
  qed
  from d have zero: "h_DeliveryCount h = 0 \<longrightarrow> DeliveryCount msg = 1" by simp
  from d have five: "h_DeliveryCount h = 5 \<longrightarrow> DeliveryCount msg = 6" by simp
  from d have top: "h_DeliveryCount h = 4294967295 \<longrightarrow> DeliveryCount msg = 0" by simp
  from r d m below zero five top show ?thesis by blast
qed

theorem newMessage_DeliveryCount_witness:
  "w_Properties ((amqp_NewMessage [])\<lparr>w_Properties := Some (toMsg_properties zero_Message),
                w_Header := Some \<lparr>h_TTL = 0, h_DeliveryCount = 5\<rparr>\<rparr>)
     = Some (toMsg_properties zero_Message) \<and>
   w_Header ((amqp_NewMessage [])\<lparr>w_Properties := Some (toMsg_properties zero_Message),
                w_Header := Some \<lparr>h_TTL = 0, h_DeliveryCount = 5\<rparr>\<rparr>)
     = Some \<lparr>h_TTL = 0, h_DeliveryCount = 5\<rparr> \<and>
   unat (5 :: uint32) < 2 ^ 32 - 1 \<and>
   (\<exists>msg err. newMessage no_annotations_decoded []
       (Some ((amqp_NewMessage [])\<lparr>w_Properties := Some (toMsg_properties zero_Message),
                w_Header := Some \<lparr>h_TTL = 0, h_DeliveryCount = 5\<rparr>\<rparr>)) = Return (msg, err) \<and>
       DeliveryCount msg = 6 \<and> unat (DeliveryCount msg) = 6)"
  using newMessage_DeliveryCount [of
      "(amqp_NewMessage [])\<lparr>w_Properties := Some (toMsg_properties zero_Message),
                w_Header := Some \<lparr>h_TTL = 0, h_DeliveryCount = 5\<rparr>\<rparr>"
      "toMsg_properties zero_Message" "\<lparr>h_TTL = 0, h_DeliveryCount = 5\<rparr>"
      no_annotations_decoded "[]"]
  by (auto simp: amqp_NewMessage_def)

text \<open>
  The claim as the specification states it, for every wire message with a properties
  block and with the count plus one as a number, is false in two places. For the header
  count \<open>2 ^ 32 - 1\<close> the message has the delivery count 0, not \<open>2 ^ 32\<close>: the fields
  are \<^verbatim>\<open>uint32\<close>. And for a wire message with a properties block and no header, which
  is what \<^verbatim>\<open>toMsg\<close> makes of \<^verbatim>\<open>NewMessage(data)\<close>, there is no message and no delivery
  count: \<^verbatim>\<open>newMessage\<close> panics on the nil header.
\<close>

theorem newMessage_DeliveryCount_counterexample:
  "returned_DeliveryCount (newMessage no_annotations_decoded []
       (Some ((amqp_NewMessage [])\<lparr>w_Properties := Some (toMsg_properties zero_Message),
                w_Header := Some \<lparr>h_TTL = 0, h_DeliveryCount = 4294967295\<rparr>\<rparr>))) = Some 0 \<and>
   unat (4294967295 :: uint32) + 1 = 4294967296 \<and>
   toMsg (NewMessage []) =
     Return (Inr ((amqp_NewMessage [])\<lparr>w_Properties := Some (toMsg_properties (NewMessage []))\<rparr>)) \<and>
   newMessage no_annotations_decoded []
       (Some ((amqp_NewMessage [])\<lparr>w_Properties := Some (toMsg_properties (NewMessage []))\<rparr>))
     = Panic NilDereference \<and>
   returned_DeliveryCount (newMessage no_annotations_decoded []
       (Some ((amqp_NewMessage [])\<lparr>w_Properties := Some (toMsg_properties (NewMessage []))\<rparr>)))
     = None"
proof -
  let ?w = "(amqp_NewMessage [])\<lparr>w_Properties := Some (toMsg_properties zero_Message),
                w_Header := Some \<lparr>h_TTL = 0, h_DeliveryCount = 4294967295\<rparr>\<rparr>"
  let ?v = "(amqp_NewMessage [])\<lparr>w_Properties := Some (toMsg_properties (NewMessage []))\<rparr>"
  have p: "w_Properties ?w = Some (toMsg_properties zero_Message)"
    and h: "w_Header ?w = Some \<lparr>h_TTL = 0, h_DeliveryCount = 4294967295\<rparr>"
    by simp_all
  obtain msg err where "newMessage no_annotations_decoded [] (Some ?w) = Return (msg, err)"
    and "DeliveryCount msg = h_DeliveryCount \<lparr>h_TTL = 0, h_DeliveryCount = 4294967295\<rparr> + 1"
    using newMessage_header [OF p h, of no_annotations_decoded "[]"] by blast
  then have wrap: "returned_DeliveryCount (newMessage no_annotations_decoded [] (Some ?w)) = Some 0"
    by (simp add: returned_DeliveryCount_def)
  have n: "unat (4294967295 :: uint32) + 1 = 4294967296"
    by simp
  have out: "toMsg (NewMessage []) = Return (Inr ?v)"
    by (simp add: toMsg_def NewMessage_def zero_Message_def toMsg_finish_def len_map_def)
  have "w_Properties ?v = Some (toMsg_properties (NewMessage []))" and "w_Header ?v = None"
    by (simp_all add: amqp_NewMessage_def)
  then have pan: "newMessage no_annotations_decoded [] (Some ?v) = Panic NilDereference"
    by (rule newMessage_no_header)
  then have none: "returned_DeliveryCount (newMessage no_annotations_decoded [] (Some ?v)) = None"
    by (simp add: returned_DeliveryCount_def)
  from wrap n out pan none show ?thesis by simp
qed

section \<open>Properties of maps\<close>

lemma map_store_fresh: "k \<notin> fst ` set ps \<Longrightarrow> map_store k v ps = ps @ [(k, v)]"
  by (induction ps) auto

lemma fold_store_distinct:
  "distinct (map fst src) \<Longrightarrow> fst ` set src \<inter> fst ` set dst = {} \<Longrightarrow>
     fold (\<lambda>(key, val) acc. map_store key (g val) acc) src dst
       = dst @ map (\<lambda>(key, val). (key, g val)) src"
proof (induction src arbitrary: dst)
  case Nil
  show ?case by simp
next
  case (Cons e src)
  obtain k v where e: "e = (k, v)" by (cases e)
  from Cons.prems e have fresh: "k \<notin> fst ` set dst" by auto
  from Cons.prems e have d: "distinct (map fst src)" by simp
  from Cons.prems e have "fst ` set src \<inter> fst ` set (dst @ [(k, g v)]) = {}"
    by auto
  from Cons.IH [OF d this] fresh show ?case
    by (simp add: e map_store_fresh)
qed

lemma copy_into_wf: "wf_gomap src \<Longrightarrow> copy_into src [] = src"
  using fold_store_distinct [of src "[]" "\<lambda>v. v"]
  by (simp add: wf_gomap_def copy_into_def case_prod_beta)

lemma map_of_map_store: "map_of (map_store k v ps) = (map_of ps)(k \<mapsto> v)"
  by (induction ps) (auto simp: fun_eq_iff)

lemma keys_map_store: "fst ` set (map_store k v ps) = insert k (fst ` set ps)"
  by (induction ps) auto

lemma distinct_map_store:
  "distinct (map fst ps) \<Longrightarrow> distinct (map fst (map_store k v ps))"
proof (induction ps)
  case Nil
  show ?case by simp
next
  case (Cons p ps)
  then show ?case
    using keys_map_store [of k v ps] by (auto simp: image_iff)
qed

lemma wf_copy_into: "wf_gomap dst \<Longrightarrow> wf_gomap (copy_into src dst)"
proof (induction src arbitrary: dst)
  case Nil
  then show ?case by (simp add: copy_into_def)
next
  case (Cons e src)
  obtain k v where e: "e = (k, v)" by (cases e)
  from Cons.prems have "wf_gomap (map_store k v dst)"
    by (simp add: wf_gomap_def distinct_map_store)
  from Cons.IH [OF this] show ?case
    by (simp add: copy_into_def e)
qed

lemma map_of_copy_into: "map_of (copy_into src dst) = map_of dst ++ map_of (rev src)"
proof (induction src arbitrary: dst)
  case Nil
  show ?case by (simp add: copy_into_def)
next
  case (Cons e src)
  obtain k v where e: "e = (k, v)" by (cases e)
  have "map_of (copy_into (e # src) dst) = map_of (copy_into src (map_store k v dst))"
    by (simp add: copy_into_def e)
  also have "\<dots> = map_of (map_store k v dst) ++ map_of (rev src)"
    by (rule Cons.IH)
  also have "\<dots> = map_of dst ++ map_of (rev (e # src))"
    by (simp add: map_of_map_store e fun_eq_iff map_add_def split: option.splits)
  finally show ?case .
qed

section \<open>Properties of the structure projector\<close>

lemma encodeField_entry:
  assumes "f_CanSet f" and "field_ok f" and "f_Tag f = Some str"
  shows "parseMapStructureTag (f_Tag f) =
           Inr (Some \<lparr>Name = TrimSpace (hd (Split_comma str)),
                      PersistEmpty = (''persistempty'' \<in> set (tl (Split_comma str)))\<rparr>) \<and>
         encodeField \<lparr>Name = TrimSpace (hd (Split_comma str)),
                      PersistEmpty = (''persistempty'' \<in> set (tl (Split_comma str)))\<rparr>
             (f_Value f) encoded =
           Return (case field_entry f of
                     None \<Rightarrow> encoded
                   | Some (key, val) \<Rightarrow> map_store key val encoded)"
proof
  from assms have ok: "\<forall>t \<in> set (tl (Split_comma str)). t = ''persistempty''"
    by (simp add: field_ok_def)
  with assms(3) show "parseMapStructureTag (f_Tag f) =
           Inr (Some \<lparr>Name = TrimSpace (hd (Split_comma str)),
                      PersistEmpty = (''persistempty'' \<in> set (tl (Split_comma str)))\<rparr>)"
    by (simp add: parseMapStructureTag_ok)
next
  show "encodeField \<lparr>Name = TrimSpace (hd (Split_comma str)),
                      PersistEmpty = (''persistempty'' \<in> set (tl (Split_comma str)))\<rparr>
             (f_Value f) encoded =
           Return (case field_entry f of
                     None \<Rightarrow> encoded
                   | Some (key, val) \<Rightarrow> map_store key val encoded)"
  proof (cases "f_Value f")
    case (PtrField p)
    with assms show ?thesis
      by (cases p) (simp_all add: encodeField_def field_entry_def)
  next
    case (PlainField v)
    with assms have "comparable v" by (simp add: field_ok_def)
    with PlainField assms show ?thesis
      by (simp add: encodeField_def field_entry_def)
  qed
qed

lemma encodeFields_entries:
  "\<forall>f \<in> set fs. field_ok f \<Longrightarrow>
     encodeFields fs encoded = Return (Inr (copy_into (List.map_filter field_entry fs) encoded))"
proof (induction fs arbitrary: encoded)
  case Nil
  show ?case by (simp add: copy_into_def List.map_filter_simps)
next
  case (Cons f fs)
  from Cons.prems have ok: "field_ok f" and rest: "\<forall>f \<in> set fs. field_ok f" by simp_all
  note IH = Cons.IH [OF rest]
  show ?case
  proof (cases "f_CanSet f")
    case False
    then have "field_entry f = None" by (simp add: field_entry_def)
    with False IH show ?thesis by (simp add: List.map_filter_simps)
  next
    case True
    show ?thesis
    proof (cases "f_Tag f")
      case None
      then have "field_entry f = None" by (simp add: field_entry_def)
      with True None IH show ?thesis
        by (simp add: List.map_filter_simps parseMapStructureTag_absent)
    next
      case (Some str)
      note e = encodeField_entry [OF True ok Some, of encoded]
      show ?thesis
      proof (cases "field_entry f")
        case None
        with True e IH show ?thesis
          by (simp add: List.map_filter_simps)
      next
        case (Some kv)
        obtain k v where "kv = (k, v)" by (cases kv)
        with Some True e IH show ?thesis
          by (simp add: List.map_filter_simps copy_into_def)
      qed
    qed
  qed
qed

lemma encodeStructureToMap_entries:
  assumes "\<forall>f \<in> set fs. field_ok f"
  shows "encodeStructureToMap (Pointer (Some (Struct fs))) =
           Return (Inr (copy_into (List.map_filter field_entry fs) []))"
  using encodeFields_entries [OF assms, of "[]"] by (simp add: encodeStructureToMap_def)

text \<open>
  Claim C2, as the code has it. The projector looks only at the fields that can be set,
  which are the exported ones. For a structure passed by pointer in which every such
  field has a well-formed annotation and every annotated plain field a comparable type,
  it returns a map, and the map holds exactly the entries of the fields, a later field
  replacing an earlier one of the same key: a field that cannot be set or has no
  annotation gives no entry; an annotated nil pointer field gives its key with null
  exactly when PersistEmpty holds; an annotated pointer field that is not nil gives its
  key with the pointed-to value; an annotated plain field gives its key with its value
  exactly when the value is not the zero value of its type or PersistEmpty holds. A nil
  pointer and a pointer to something that is not a structure give the not-a-structure
  error.
\<close>

theorem encodeStructureToMap_projection:
  "((\<forall>f \<in> set fs. field_ok f) \<longrightarrow>
      (\<exists>m. encodeStructureToMap (Pointer (Some (Struct fs))) = Return (Inr m) \<and>
           wf_gomap m \<and>
           map_of m = map_of (rev (List.map_filter field_entry fs)) \<and>
           (distinct (map fst (List.map_filter field_entry fs)) \<longrightarrow>
              m = List.map_filter field_entry fs))) \<and>
   encodeStructureToMap (Pointer None) = Return (Inl NotAStruct) \<and>
   encodeStructureToMap (Pointer (Some (NonStruct v))) = Return (Inl NotAStruct)"
proof (intro conjI impI)
  assume ok: "\<forall>f \<in> set fs. field_ok f"
  let ?es = "List.map_filter field_entry fs"
  have r: "encodeStructureToMap (Pointer (Some (Struct fs))) = Return (Inr (copy_into ?es []))"
    using ok by (rule encodeStructureToMap_entries)
  have w: "wf_gomap (copy_into ?es [])"
    by (rule wf_copy_into) (simp add: wf_gomap_def)
  have m: "map_of (copy_into ?es []) = map_of (rev ?es)"
    by (simp add: map_of_copy_into)
  have d: "distinct (map fst ?es) \<longrightarrow> copy_into ?es [] = ?es"
    by (simp add: copy_into_wf wf_gomap_def)
  from r w m d
  show "\<exists>m. encodeStructureToMap (Pointer (Some (Struct fs))) = Return (Inr m) \<and>
           wf_gomap m \<and>
           map_of m = map_of (rev (List.map_filter field_entry fs)) \<and>
           (distinct (map fst (List.map_filter field_entry fs)) \<longrightarrow>
              m = List.map_filter field_entry fs)"
    by blast
next
  show "encodeStructureToMap (Pointer None) = Return (Inl NotAStruct)"
    by (simp add: encodeStructureToMap_def)
next
  show "encodeStructureToMap (Pointer (Some (NonStruct v))) = Return (Inl NotAStruct)"
    by (simp add: encodeStructureToMap_def)
qed

theorem encodeStructureToMap_projection_witness:
  "list_all field_ok example_fields \<and>
   List.map_filter field_entry example_fields =
     [(''a'', VInt 7), (''b'', VNil), (''e'', VInt 0), (''f'', VString ''x'')] \<and>
   encodeStructureToMap (Pointer (Some (Struct example_fields))) =
     Return (Inr [(''a'', VInt 7), (''b'', VNil), (''e'', VInt 0), (''f'', VString ''x'')])"
proof -
  have ok: "list_all field_ok example_fields"
    by code_simp
  have es: "List.map_filter field_entry example_fields =
     [(''a'', VInt 7), (''b'', VNil), (''e'', VInt 0), (''f'', VString ''x'')]"
    by code_simp
  from ok have "\<forall>f \<in> set example_fields. field_ok f"
    by (simp add: list_all_iff)
  with encodeStructureToMap_projection [of example_fields] es
  have "encodeStructureToMap (Pointer (Some (Struct example_fields))) =
     Return (Inr [(''a'', VInt 7), (''b'', VNil), (''e'', VInt 0), (''f'', VString ''x'')])"
    by auto
  with ok es show ?thesis by simp
qed

text \<open>
  The claim as the specification states it is false for a field that is not exported: the
  field below carries the annotation and a pointer that is not nil, and the map has no
  entry for it.
\<close>

theorem encodeStructureToMap_unexported_counterexample:
  "parseMapStructureTag (Some ''key'') = Inr (Some \<lparr>Name = ''key'', PersistEmpty = False\<rparr>) \<and>
   encodeStructureToMap (Pointer (Some (Struct
       [\<lparr>f_CanSet = False, f_Tag = Some ''key'', f_Value = PtrField (Some (VInt 7))\<rparr>])))
     = Return (Inr [])"
proof
  show "parseMapStructureTag (Some ''key'') = Inr (Some \<lparr>Name = ''key'', PersistEmpty = False\<rparr>)"
    by code_simp
  show "encodeStructureToMap (Pointer (Some (Struct
       [\<lparr>f_CanSet = False, f_Tag = Some ''key'', f_Value = PtrField (Some (VInt 7))\<rparr>])))
     = Return (Inr [])"
    by (simp add: encodeStructureToMap_def)
qed

text \<open>
  What the projector does outside the conditions above: an unknown option in the
  annotation of a field that can be set is returned as the error, a plain field of a
  type that cannot be compared makes the comparison with the zero value panic, and an
  argument that is not a pointer makes \<^verbatim>\<open>Elem\<close> panic.
\<close>

lemma encodeStructureToMap_bad_option:
  "encodeStructureToMap (Pointer (Some (Struct
       (\<lparr>f_CanSet = True, f_Tag = Some ''key,omitempty'', f_Value = v\<rparr> # fs))))
     = Return (Inl (UnrecognizedTagOption ''omitempty''))"
proof -
  have "parseMapStructureTag (Some ''key,omitempty'') = Inl (UnrecognizedTagOption ''omitempty'')"
    by code_simp
  then show ?thesis by (simp add: encodeStructureToMap_def)
qed

lemma encodeStructureToMap_uncomparable:
  "encodeStructureToMap (Pointer (Some (Struct
       (\<lparr>f_CanSet = True, f_Tag = Some ''key'', f_Value = PlainField (VBytes bs)\<rparr> # fs))))
     = Panic UncomparableType"
proof -
  have "parseMapStructureTag (Some ''key'') = Inr (Some \<lparr>Name = ''key'', PersistEmpty = False\<rparr>)"
    by code_simp
  then show ?thesis by (simp add: encodeStructureToMap_def encodeField_def)
qed

lemma encodeStructureToMap_not_pointer:
  "encodeStructureToMap NilInterface = Panic ReflectElemOnNonPointer"
  "encodeStructureToMap (ByValue x) = Panic ReflectElemOnNonPointer"
  by (simp_all add: encodeStructureToMap_def)

section \<open>The payload of a received message\<close>

lemma newMessage_Data:
  assumes "newMessage Decode data a = Return (msg, err)"
  shows "Data msg = data"
proof (cases a)
  case None
  with assms show ?thesis by (auto simp: newMessage_nil)
next
  case (Some w)
  show ?thesis
  proof (cases "w_Properties w")
    case None
    then show ?thesis
      using newMessage_no_properties [of w Decode data] assms Some by auto
  next
    case (Some p)
    show ?thesis
    proof (cases "w_Header w")
      case None
      with \<open>w_Properties w = Some p\<close> \<open>a = Some w\<close> assms show ?thesis
        by (simp add: newMessage_no_header)
    next
      case (Some h)
      with \<open>w_Properties w = Some p\<close> \<open>a = Some w\<close> assms show ?thesis
        using newMessage_header [of w p h Decode data] by auto
    qed
  qed
qed

lemma messageFromAMQPMessage_Cons:
  "w_Data w = d # ds \<Longrightarrow> messageFromAMQPMessage Decode (Some w) = newMessage Decode d (Some w)"
  by (simp add: messageFromAMQPMessage_def)

lemma messageFromAMQPMessage_payload:
  assumes "messageFromAMQPMessage Decode (Some w) = Return (msg, err)"
  shows "w_Data w \<noteq> [] \<and> Data msg = hd (w_Data w)"
proof (cases "w_Data w")
  case Nil
  with assms show ?thesis by (simp add: messageFromAMQPMessage_def)
next
  case (Cons d ds)
  with assms have "newMessage Decode d (Some w) = Return (msg, err)"
    by (simp add: messageFromAMQPMessage_Cons)
  then have "Data msg = d" by (rule newMessage_Data)
  with Cons show ?thesis by simp
qed

text \<open>
  Claim C4. The specification asks that a wire message with no data section makes
  inbound translation fail with an error of the empty-payload kind, without a crash. The
  code indexes \<^verbatim>\<open>msg.Data[0]\<close> before any test: on a wire message with no data
  section it panics with an index out of range. (With a data section, the payload of
  a returned message is the first one: \<open>messageFromAMQPMessage_payload\<close>.)
\<close>

theorem messageFromAMQPMessage_no_data_panics:
  "messageFromAMQPMessage Decode (Some (w\<lparr>w_Data := []\<rparr>)) = Panic IndexOutOfRange"
  by (simp add: messageFromAMQPMessage_def)

section \<open>Properties of the text-map carrier\<close>

text \<open>
  On string properties the method calls the handler on the entries in the order of the
  range, up to the first error of the handler, and returns that error. A property that
  is not a string makes it panic, unless the handler has failed on an earlier entry.
\<close>

lemma ForeachKey_range_strings:
  "ForeachKey_range handler (string_entries ps) st =
     (fst (handler_run handler ps st), Return (snd (handler_run handler ps st)))"
proof (induction ps arbitrary: st)
  case Nil
  show ?case by (simp add: string_entries_def)
next
  case (Cons e ps)
  obtain k s where e: "e = (k, s)" by (cases e)
  obtain r st' where h: "handler k s st = (r, st')" by (cases "handler k s st")
  show ?case
  proof (cases r)
    case None
    with h e Cons.IH [of st'] show ?thesis by (simp add: string_entries_def)
  next
    case (Some err)
    with h e show ?thesis by (simp add: string_entries_def)
  qed
qed

lemma ForeachKey_range_non_string:
  assumes "\<forall>s. v \<noteq> VString s"
  shows "ForeachKey_range handler (string_entries ps @ (key, v) # rest) st =
     (case handler_run handler ps st of
        (st', Some err) \<Rightarrow> (st', Return (Some err))
      | (st', None) \<Rightarrow> (st', Panic InterfaceConversion))"
proof (induction ps arbitrary: st)
  case Nil
  from assms show ?case by (cases v) (simp_all add: string_entries_def)
next
  case (Cons e ps)
  obtain k s where e: "e = (k, s)" by (cases e)
  obtain r st' where h: "handler k s st = (r, st')" by (cases "handler k s st")
  show ?case
  proof (cases r)
    case None
    with h e Cons.IH [of st'] show ?thesis by (simp add: string_entries_def)
  next
    case (Some err)
    with h e show ?thesis by (simp add: string_entries_def)
  qed
qed

text \<open>
  Claim C9. The specification asks that \<^verbatim>\<open>ForeachKey\<close> returns an error when a user
  property is not a string. The code asserts \<^verbatim>\<open>value.(string)\<close> in the one-result
  form: on a message whose only user property is the integer 1 it panics with an
  interface conversion, before the handler is called.
\<close>

theorem ForeachKey_non_string_panics:
  "ForeachKey (m\<lparr>UserProperties := Some [(''n'', VInt 1)]\<rparr>) handler st
     = (st, Panic InterfaceConversion)"
  by (simp add: ForeachKey_def entries_def)

section \<open>Properties of the disposition actions\<close>

text \<open>
  Claim C8. For a message that holds its wire message, an error with a message text, a
  condition string and an optional map of additional data (a Go map: its keys are
  distinct), running the action that \<^verbatim>\<open>DeadLetterWithInfo\<close> returns settles that wire
  message with a rejection that carries the condition, the text of the error as
  description and, as info, the given pairs (nil when no map is given). In particular
  the condition \<^verbatim>\<open>amqp:precondition-failed\<close> with the pair reason, expired gives a
  rejection with exactly that condition and pair.
\<close>

theorem DeadLetterWithInfo_rejects:
  assumes "message m = Some w" and "wf_gomap (entries additionalData)"
  shows "DeadLetterWithInfo m (Some text) condition additionalData ctx =
           Return (w, Reject \<lparr>e_Condition = condition, e_Description = text,
                      e_Info = map_option (map (\<lambda>(key, val). (key, VString val))) additionalData\<rparr>) \<and>
         DeadLetterWithInfo m (Some text) ErrorPreconditionFailed
             (Some [(''reason'', ''expired'')]) ctx =
           Return (w, Reject \<lparr>e_Condition = ''amqp:precondition-failed'', e_Description = text,
                      e_Info = Some [(''reason'', VString ''expired'')]\<rparr>)"
proof
  show "DeadLetterWithInfo m (Some text) condition additionalData ctx =
           Return (w, Reject \<lparr>e_Condition = condition, e_Description = text,
                      e_Info = map_option (map (\<lambda>(key, val). (key, VString val))) additionalData\<rparr>)"
  proof (cases additionalData)
    case None
    with assms show ?thesis
      by (simp add: DeadLetterWithInfo_def settle_def)
  next
    case (Some ad)
    with assms have "distinct (map fst ad)" by (simp add: wf_gomap_def entries_def)
    then have "fold (\<lambda>(key, val) acc. map_store key (VString val) acc) ad []
        = map (\<lambda>(key, val). (key, VString val)) ad"
      using fold_store_distinct [of ad "[]" VString] by simp
    with Some assms show ?thesis
      by (simp add: DeadLetterWithInfo_def settle_def)
  qed
next
  from assms show "DeadLetterWithInfo m (Some text) ErrorPreconditionFailed
             (Some [(''reason'', ''expired'')]) ctx =
           Return (w, Reject \<lparr>e_Condition = ''amqp:precondition-failed'', e_Description = text,
                      e_Info = Some [(''reason'', VString ''expired'')]\<rparr>)"
    by (simp add: DeadLetterWithInfo_def settle_def ErrorPreconditionFailed_def)
qed

theorem DeadLetterWithInfo_rejects_witness:
  "message ((NewMessage [])\<lparr>message := Some (amqp_NewMessage [])\<rparr>) = Some (amqp_NewMessage []) \<and>
   wf_gomap (entries (Some [(''reason'', ''expired''), (''attempt'', ''3'')])) \<and>
   DeadLetterWithInfo ((NewMessage [])\<lparr>message := Some (amqp_NewMessage [])\<rparr>)
       (Some ''lock lost'') ''amqp:not-allowed''
       (Some [(''reason'', ''expired''), (''attempt'', ''3'')]) () =
     Return (amqp_NewMessage [],
       Reject \<lparr>e_Condition = ''amqp:not-allowed'', e_Description = ''lock lost'',
               e_Info = Some [(''reason'', VString ''expired''), (''attempt'', VString ''3'')]\<rparr>) \<and>
   DeadLetterWithInfo ((NewMessage [])\<lparr>message := Some (amqp_NewMessage [])\<rparr>)
       (Some ''lock lost'') ErrorPreconditionFailed (Some [(''reason'', ''expired'')]) () =
     Return (amqp_NewMessage [],
       Reject \<lparr>e_Condition = ''amqp:precondition-failed'', e_Description = ''lock lost'',
               e_Info = Some [(''reason'', VString ''expired'')]\<rparr>)"
proof -
  have m: "message ((NewMessage [])\<lparr>message := Some (amqp_NewMessage [])\<rparr>)
      = Some (amqp_NewMessage [])"
    by simp
  have w: "wf_gomap (entries (Some [(''reason'', ''expired''), (''attempt'', ''3'')]))"
    by (simp add: wf_gomap_def entries_def)
  from DeadLetterWithInfo_rejects [OF m w, of "''lock lost''" "''amqp:not-allowed''" "()"] m w
  show ?thesis by simp
qed

section \<open>The round trip\<close>

text \<open>
  The projector never fails on \<^verbatim>\<open>SystemProperties\<close>: every field is an exported
  pointer whose annotation is a name with no option.
\<close>

lemma plain_tags:
  "tl (Split_comma ''x-opt-locked-until'') = []"
  "tl (Split_comma ''x-opt-sequence-number'') = []"
  "tl (Split_comma ''x-opt-partition-id'') = []"
  "tl (Split_comma ''x-opt-partition-key'') = []"
  "tl (Split_comma ''x-opt-enqueued-time'') = []"
  "tl (Split_comma ''x-opt-deadletter-source'') = []"
  "tl (Split_comma ''x-opt-scheduled-enqueue-time'') = []"
  "tl (Split_comma ''x-opt-enqueue-sequence-number'') = []"
  "tl (Split_comma ''x-opt-via-partition-key'') = []"
  by (simp_all add: Split_comma_def)

lemma SystemProperties_fields_ok: "\<forall>f \<in> set (SystemProperties_fields sp). field_ok f"
  by (simp add: SystemProperties_fields_def tagged_ptr_def field_ok_def plain_tags)

lemma encode_SystemProperties:
  "\<exists>sysPropMap. encodeStructureToMap (Pointer (Some (Struct (SystemProperties_fields sp)))) =
     Return (Inr sysPropMap)"
  using encodeStructureToMap_entries [OF SystemProperties_fields_ok, of sp] by blast

text \<open>The wire message that \<^verbatim>\<open>toMsg\<close> makes for a message that wraps none.\<close>

lemma toMsg_finish_fields:
  "w_Data (toMsg_finish m a) = w_Data a \<and> w_Properties (toMsg_finish m a) = w_Properties a \<and>
   w_ApplicationProperties (toMsg_finish m a) = w_ApplicationProperties a \<and>
   w_DeliveryTag (toMsg_finish m a) = w_DeliveryTag a \<and>
   w_Annotations (toMsg_finish m a) = w_Annotations a \<and>
   (w_Header a = None \<longrightarrow>
      w_Header (toMsg_finish m a) = map_option (\<lambda>t. \<lparr>h_TTL = t, h_DeliveryCount = 0\<rparr>) (TTL m))"
  by (cases "LockToken m"; cases "TTL m") (simp_all add: toMsg_finish_def)

lemma toMsg_fresh:
  assumes "message m = None"
  shows "\<exists>w. toMsg m = Return (Inr w) \<and> w_Data w = [Data m] \<and>
           w_Properties w = Some (toMsg_properties m) \<and>
           w_Header w = map_option (\<lambda>t. \<lparr>h_TTL = t, h_DeliveryCount = 0\<rparr>) (TTL m) \<and>
           w_ApplicationProperties w =
             (if len_map (UserProperties m) > 0
              then Some (copy_into (entries (UserProperties m)) []) else None) \<and>
           w_DeliveryTag w = []"
proof (cases "SystemProperties m")
  case None
  with assms show ?thesis
    by (simp add: toMsg_def toMsg_finish_fields amqp_NewMessage_def)
next
  case (Some sp)
  obtain sysPropMap where
    "encodeStructureToMap (Pointer (Some (Struct (SystemProperties_fields sp)))) =
       Return (Inr sysPropMap)"
    using encode_SystemProperties by blast
  with Some assms show ?thesis
    by (simp add: toMsg_def toMsg_finish_fields amqp_NewMessage_def)
qed

lemma toMsg_properties_fields:
  "p_ContentType (toMsg_properties m) = ContentType m \<and>
   p_CorrelationID (toMsg_properties m) = VString (CorrelationID m) \<and>
   p_Subject (toMsg_properties m) = Label m \<and>
   p_To (toMsg_properties m) = To m \<and>
   p_ReplyTo (toMsg_properties m) = ReplyTo m \<and>
   p_ReplyToGroupID (toMsg_properties m) = ReplyToGroupID m \<and>
   p_MessageID (toMsg_properties m) = VString (ID m)"
  by (cases "GroupID m"; cases "GroupSequence m") (simp_all add: toMsg_properties_def)

text \<open>
  For a message that wraps no wire message, the round trip panics when the time-to-live
  is not set, and gives back the content fields and the entries of the user properties
  when it is set.
\<close>

lemma roundtrip_fresh_without_TTL:
  assumes "message m = None" and "TTL m = None"
  shows "roundtrip Decode m = Panic NilDereference"
proof -
  obtain w where w: "toMsg m = Return (Inr w)" "w_Data w = [Data m]"
      "w_Properties w = Some (toMsg_properties m)"
      "w_Header w = map_option (\<lambda>t. \<lparr>h_TTL = t, h_DeliveryCount = 0\<rparr>) (TTL m)"
    using toMsg_fresh [OF assms(1)] by blast
  with assms(2) have "newMessage Decode (Data m) (Some w) = Panic NilDereference"
    by (simp add: newMessage_no_header)
  with w show ?thesis
    by (simp add: roundtrip_def messageFromAMQPMessage_Cons)
qed

lemma roundtrip_fresh_with_TTL:
  assumes "message m = None" and "TTL m = Some t" and "wf_gomap (entries (UserProperties m))"
  shows "\<exists>m' err. roundtrip Decode m = Return (m', err) \<and>
           ContentType m' = ContentType m \<and> CorrelationID m' = CorrelationID m \<and>
           Label m' = Label m \<and> To m' = To m \<and> ReplyTo m' = ReplyTo m \<and>
           ReplyToGroupID m' = ReplyToGroupID m \<and>
           entries (UserProperties m') = entries (UserProperties m) \<and>
           Data m' = Data m \<and> TTL m' = Some t"
proof -
  let ?p = "toMsg_properties m"
  let ?h = "\<lparr>h_TTL = t, h_DeliveryCount = 0\<rparr>"
  obtain w where w: "toMsg m = Return (Inr w)" "w_Data w = [Data m]"
      "w_Properties w = Some ?p"
      "w_Header w = map_option (\<lambda>t. \<lparr>h_TTL = t, h_DeliveryCount = 0\<rparr>) (TTL m)"
      "w_ApplicationProperties w =
             (if len_map (UserProperties m) > 0
              then Some (copy_into (entries (UserProperties m)) []) else None)"
    using toMsg_fresh [OF assms(1)] by blast
  from w(4) assms(2) have h: "w_Header w = Some ?h" by simp
  obtain m' err where r: "newMessage Decode (Data m) (Some w) = Return (m', err)"
    and f: "TTL m' = Some (h_TTL ?h)" "Data m' = Data m"
      "ContentType m' = p_ContentType ?p" "Label m' = p_Subject ?p" "To m' = p_To ?p"
      "ReplyTo m' = p_ReplyTo ?p" "ReplyToGroupID m' = p_ReplyToGroupID ?p"
      "CorrelationID m' = (case p_CorrelationID ?p of VString s \<Rightarrow> s | _ \<Rightarrow> [])"
      "UserProperties m' = map_option (\<lambda>ap. copy_into ap []) (w_ApplicationProperties w)"
    using newMessage_header [OF w(3) h, of Decode "Data m"] by blast
  have u: "entries (UserProperties m') = entries (UserProperties m)"
  proof (cases "len_map (UserProperties m) > 0")
    case True
    with w(5) f(9) assms(3) show ?thesis
      by (simp add: copy_into_wf entries_def)
  next
    case False
    then have "entries (UserProperties m) = []"
      by (cases "UserProperties m") (simp_all add: len_map_def entries_def)
    with False w(5) f(9) show ?thesis by (simp add: entries_def)
  qed
  from w r have "roundtrip Decode m = Return (m', err)"
    by (simp add: roundtrip_def messageFromAMQPMessage_Cons)
  with f u show ?thesis
    by (simp add: toMsg_properties_fields)
qed

text \<open>
  Claim C3. The specification asks that outbound translation followed by inbound
  translation gives back the content fields of every message. \<^verbatim>\<open>toMsg\<close> makes a
  header only when the time-to-live is set, and \<^verbatim>\<open>newMessage\<close> reads the header
  whenever the properties block is there, which \<^verbatim>\<open>toMsg\<close> always makes: for the
  message \<^verbatim>\<open>NewMessage(data)\<close>, which sets no time-to-live, the round trip panics on
  the nil header and gives back no message.
\<close>

theorem roundtrip_without_TTL_panics:
  "roundtrip Decode (NewMessage data) = Panic NilDereference"
proof -
  have "toMsg (NewMessage data) =
      Return (Inr ((amqp_NewMessage data)\<lparr>w_Properties := Some (toMsg_properties (NewMessage data))\<rparr>))"
    by (simp add: toMsg_def NewMessage_def zero_Message_def toMsg_finish_def len_map_def)
  then show ?thesis
    by (simp add: roundtrip_def messageFromAMQPMessage_def amqp_NewMessage_def
        newMessage_no_header)
qed

end
